theory Spec2Isabelle
  imports Complex_Main
begin

section \<open>The Blender session as explicit state\<close>

text \<open>
  The add-on drives Blender through \<^verbatim>\<open>bpy\<close>.  The session data it reads and writes
  is a record that every operation takes and returns.  Blender data blocks are
  Python references; here a data block is identified by its name, which Blender
  keeps unique inside its collection.  Pixel channels and colour components are
  Python floats in the source and exact reals here.
\<close>

datatype exn =
    RuntimeError string
  | OSError string
  | IndexError string
  | UnboundLocalError string
  | HostError string

fun str_exn :: "exn \<Rightarrow> string" where
  "str_exn (RuntimeError m) = m"
| "str_exn (OSError m) = m"
| "str_exn (IndexError m) = m"
| "str_exn (UnboundLocalError m) = m"
| "str_exn (HostError m) = m"

datatype severity = INFO | WARNING | ERROR

datatype status = FINISHED | CANCELLED

datatype outcome = Returned status | Raised exn

record image =
  img_name :: string
  img_width :: nat
  img_height :: nat
  img_alpha :: bool
  generated_color :: "real \<times> real \<times> real \<times> real"
  colorspace_name :: string
  use_generated_float :: bool
  has_data :: bool
  channels :: nat
  pixels :: "real list"
  filepath_raw :: string
  file_format :: string

record uv_layer =
  uv_name :: string
  active_render :: bool

record object =
  obj_name :: string
  obj_type :: string
  obj_select :: bool
  uv_layers :: "uv_layer list"
  uv_active :: "nat option"
  material_slots :: "string option list"
  active_material_index :: nat

record node =
  nd_name :: string
  nd_type :: string
  nd_label :: string
  nd_image :: "string option"
  nd_select :: bool

record material =
  mat_name :: string
  use_nodes :: bool
  mat_nodes :: "node list"
  nodes_active :: "string option"

record world =
  engine :: string
  samples :: int
  use_selected_to_active :: bool
  use_pass_direct :: bool
  use_pass_indirect :: bool
  use_pass_color :: bool
  normal_space :: string
  normal_r :: string
  normal_g :: string
  normal_b :: string
  active_object :: "string option"
  objects :: "object list"
  materials :: "material list"
  images :: "image list"
  dirs :: "string list"
  files :: "(string \<times> image) list"
  reports :: "(severity \<times> string) list"
  bake_log :: "string list"

text \<open>
  \<^verbatim>\<open>dirs\<close> are the directories that exist on disk, \<^verbatim>\<open>files\<close> the files written by
  \<^verbatim>\<open>image.save()\<close> (path and the image as it was saved), \<^verbatim>\<open>reports\<close> the messages
  passed to \<^verbatim>\<open>self.report\<close>, \<^verbatim>\<open>bake_log\<close> the bake types handed to
  \<^verbatim>\<open>bpy.ops.object.bake\<close>, in call order.
\<close>

record props =
  bake_diffuse_p :: bool
  bake_roughness_p :: bool
  bake_normal_p :: bool
  bake_ao_p :: bool
  texture_size :: nat
  output_folder :: string
  subfolder_for_size :: bool

text \<open>
  What the host does behind the calls the add-on makes is not code of the add-on.
  The calls that reach an operator, the file system, the renderer or a pixel buffer,
  the two property writes the source guards with its own handler, and the write of a
  colour space name to a new image (an enum of the host's colour configuration, which
  rejects a name it does not have) are taken from a record of host behaviours: which
  exception a call raises, if any, and what the bake service leaves in the image it
  targets.  Every other property write and collection edit on session data is a plain
  update.
\<close>

record host =
  uv_set_active_render_exn :: "exn option"
  uv_set_active_exn :: "exn option"
  select_all_exn :: "exn option"
  abspath :: "string \<Rightarrow> string"
  makedirs_exn :: "string \<Rightarrow> exn option"
  bake_service :: "string \<Rightarrow> image \<Rightarrow> exn + image"
  save_exn :: "image \<Rightarrow> exn option"
  read_pixels :: "image \<Rightarrow> exn + real list"
  colorspace_exn :: "string \<Rightarrow> exn option"

definition report :: "severity \<Rightarrow> string \<Rightarrow> world \<Rightarrow> world" where
  "report sev msg w = w\<lparr>reports := reports w @ [(sev, msg)]\<rparr>"

subsection \<open>Strings\<close>

definition digit_char :: "nat \<Rightarrow> char" where
  "digit_char d = (''0123456789'' ! (d mod 10))"

function str_nat :: "nat \<Rightarrow> string" where
  "str_nat n = (if n < 10 then [digit_char n] else str_nat (n div 10) @ [digit_char (n mod 10)])"
  by pat_completeness auto
termination
  by (relation "measure (\<lambda>n. n)") auto

declare str_nat.simps [simp del]

definition apostrophe :: string where
  "apostrophe = [CHR 0x27]"

definition quoted :: "string \<Rightarrow> string" where
  "quoted s = apostrophe @ s @ apostrophe"

definition endswith :: "string \<Rightarrow> string \<Rightarrow> bool" where
  "endswith s suf = (length suf \<le> length s \<and> drop (length s - length suf) s = suf)"

definition path_join :: "string \<Rightarrow> string \<Rightarrow> string" where
  \<comment> \<open>\<^verbatim>\<open>os.path.join\<close> with two arguments, POSIX flavour\<close>
  "path_join a b =
     (if b \<noteq> [] \<and> hd b = CHR ''/'' then b
      else if a = [] \<or> last a = CHR ''/'' then a @ b
      else a @ ''/'' @ b)"

subsection \<open>Names in a Blender collection\<close>

text \<open>
  Blender keeps names unique inside one collection: a new data block or node that asks
  for a taken name gets the name with the first free suffix \<^verbatim>\<open>.001\<close>, \<^verbatim>\<open>.002\<close>, ...
\<close>

definition name_suffix :: "nat \<Rightarrow> string" where
  "name_suffix k = ''.'' @ replicate (3 - length (str_nat k)) CHR ''0'' @ str_nat k"

definition unique_name :: "string list \<Rightarrow> string \<Rightarrow> string" where
  "unique_name used base =
     (if base \<notin> set used then base
      else case find (\<lambda>k. base @ name_suffix k \<notin> set used) [1..<length used + 2] of
             Some k \<Rightarrow> base @ name_suffix k
           | None \<Rightarrow> base)"

subsection \<open>The image collection \<^verbatim>\<open>bpy.data.images\<close>\<close>

definition image_names :: "world \<Rightarrow> string list" where
  "image_names w = map img_name (images w)"

definition images_get :: "world \<Rightarrow> string \<Rightarrow> image option" where
  "images_get w n = find (\<lambda>i. img_name i = n) (images w)"

definition images_remove :: "string \<Rightarrow> world \<Rightarrow> world" where
  "images_remove n w = w\<lparr>images := filter (\<lambda>i. img_name i \<noteq> n) (images w)\<rparr>"

definition images_put :: "image \<Rightarrow> world \<Rightarrow> world" where
  \<comment> \<open>a write through a reference to the image of that name\<close>
  "images_put img w =
     w\<lparr>images := map (\<lambda>i. if img_name i = img_name img then img else i) (images w)\<rparr>"

definition images_new :: "string \<Rightarrow> nat \<Rightarrow> nat \<Rightarrow> bool \<Rightarrow> world \<Rightarrow> image \<times> world" where
  \<comment> \<open>\<^verbatim>\<open>bpy.data.images.new(name, width, height, alpha)\<close>: a generated image, 8-bit
      (\<^verbatim>\<open>float_buffer\<close> defaults to False), four channels, buffer not yet filled\<close>
  "images_new n width height alpha w =
     (let img = \<lparr>img_name = unique_name (image_names w) n,
                 img_width = width, img_height = height, img_alpha = alpha,
                 generated_color = (0, 0, 0, 1),
                 colorspace_name = ''sRGB'',
                 use_generated_float = False,
                 has_data = False, channels = 4, pixels = [],
                 filepath_raw = [], file_format = ''TARGA''\<rparr>
      in (img, w\<lparr>images := images w @ [img]\<rparr>))"

section \<open>\<^verbatim>\<open>create_image\<close>\<close>

definition create_image :: "string \<Rightarrow> nat \<Rightarrow> string \<Rightarrow> world \<Rightarrow> image \<times> world" where
  "create_image n sz map_type w =
     (let (image0, w1) = images_new n sz sz True w;
          image1 =
            (if map_type = ''Normal'' then
               image0\<lparr>generated_color := (0.5, 0.5, 1.0, 1.0),
                      colorspace_name := ''Non-Color'',
                      use_generated_float := True\<rparr>
             else if map_type \<in> set [''Roughness'', ''Metallic'', ''AO''] then
               image0\<lparr>generated_color := (0.5, 0.5, 0.5, 1.0),
                      colorspace_name := ''Non-Color''\<rparr>
             else
               image0\<lparr>generated_color := (0.0, 0.0, 0.0, 1.0),
                      colorspace_name := ''sRGB''\<rparr>)
      in (image1, images_put image1 w1))"

text \<open>
  \<^verbatim>\<open>create_image\<close> above is the function on a host that accepts the colour space it
  writes.  As called from \<^verbatim>\<open>execute\<close> it runs on the host at hand: when the host
  rejects the name, the write raises after \<^verbatim>\<open>images.new\<close> and the fill colour, the
  caller gets no image, and the buffer stays in the session as those two steps left it.
  The later writes of \<^verbatim>\<open>'Non-Color'\<close> (bake methods, save loop) are only reached for an
  image whose creation wrote that name already, so they stay plain updates.
\<close>

definition colorspace_written :: "string \<Rightarrow> string" where
  \<comment> \<open>the name the branch of \<^verbatim>\<open>create_image\<close> for this map type writes\<close>
  "colorspace_written map_type =
     (if map_type = ''Normal'' then ''Non-Color''
      else if map_type \<in> set [''Roughness'', ''Metallic'', ''AO''] then ''Non-Color''
      else ''sRGB'')"

definition create_image_partial :: "string \<Rightarrow> nat \<Rightarrow> string \<Rightarrow> world \<Rightarrow> world" where
  \<comment> \<open>the session when the write of the colour space raises: lines 319 and 324, 329
      or 333 have run\<close>
  "create_image_partial n sz map_type w =
     (let (image0, w1) = images_new n sz sz True w;
          image1 =
            (if map_type = ''Normal'' then image0\<lparr>generated_color := (0.5, 0.5, 1.0, 1.0)\<rparr>
             else if map_type \<in> set [''Roughness'', ''Metallic'', ''AO'']
             then image0\<lparr>generated_color := (0.5, 0.5, 0.5, 1.0)\<rparr>
             else image0\<lparr>generated_color := (0.0, 0.0, 0.0, 1.0)\<rparr>)
      in images_put image1 w1)"

definition create_image_on ::
  "host \<Rightarrow> string \<Rightarrow> nat \<Rightarrow> string \<Rightarrow> world \<Rightarrow> (exn + image) \<times> world" where
  \<comment> \<open>the call \<^verbatim>\<open>self.create_image(...)\<close> of line 119 on host \<open>h\<close>\<close>
  "create_image_on h n sz map_type w =
     (case colorspace_exn h (colorspace_written map_type) of
        Some e \<Rightarrow> (Inl e, create_image_partial n sz map_type w)
      | None \<Rightarrow> (case create_image n sz map_type w of (img, w1) \<Rightarrow> (Inr img, w1)))"

section \<open>\<^verbatim>\<open>is_image_solid_color\<close>\<close>

definition tolerance :: real where
  "tolerance = 0.01"

definition is_different :: "real list \<Rightarrow> real list \<Rightarrow> nat \<Rightarrow> bool" where
  \<comment> \<open>the inner loop over \<^verbatim>\<open>range(channels)\<close>, left at the first channel that differs\<close>
  "is_different first_pixel_color current_pixel_color chans =
     list_ex (\<lambda>j. \<bar>first_pixel_color ! j - current_pixel_color ! j\<bar> > tolerance) [0..<chans]"

function compare_pixels :: "real list \<Rightarrow> nat \<Rightarrow> real list \<Rightarrow> nat \<Rightarrow> bool" where
  \<comment> \<open>the loop over \<^verbatim>\<open>range(channels, len(pixels), channels)\<close>, from index \<open>i\<close> on\<close>
  "compare_pixels pxs chans first_pixel_color i =
     (if chans = 0 \<or> length pxs \<le> i then True
      else let current_pixel_color = take chans (drop i pxs) in
        if length current_pixel_color \<noteq> chans
        then compare_pixels pxs chans first_pixel_color (i + chans)
        else if is_different first_pixel_color current_pixel_color chans then False
        else compare_pixels pxs chans first_pixel_color (i + chans))"
  by pat_completeness auto
termination
  by (relation "measure (\<lambda>(pxs, chans, f, i). length pxs - i)") auto

declare compare_pixels.simps [simp del]

definition is_image_solid_color :: "host \<Rightarrow> image \<Rightarrow> bool" where
  "is_image_solid_color h img =
     (if \<not> has_data img \<or> pixels img = [] \<or> img_width img = 0 \<or> img_height img = 0
      then False
      else case read_pixels h img of
             Inl e \<Rightarrow> False
           | Inr pxs \<Rightarrow>
               if pxs = [] then True
               else if channels img = 0 then True
               else compare_pixels pxs (channels img) (take (channels img) pxs)
                      (channels img))"

section \<open>\<^verbatim>\<open>validateRequirements\<close>\<close>

datatype validation = Cancelled | Validated string string string

text \<open>
  \<^verbatim>\<open>Validated model material principled_node\<close> is the dictionary with status
  \<^verbatim>\<open>{'FINISHED'}\<close>; the three references are kept as names.
\<close>

definition errors :: "world \<Rightarrow> string list" where
  \<comment> \<open>the messages reported with severity ERROR so far\<close>
  "errors w = map snd (filter (\<lambda>r. fst r = ERROR) (reports w))"

definition warnings :: "world \<Rightarrow> string list" where
  "warnings w = map snd (filter (\<lambda>r. fst r = WARNING) (reports w))"

fun find_index :: "('a \<Rightarrow> bool) \<Rightarrow> 'a list \<Rightarrow> nat option" where
  "find_index P [] = None"
| "find_index P (x # xs) =
     (if P x then Some 0 else map_option Suc (find_index P xs))"

definition objects_get :: "world \<Rightarrow> string \<Rightarrow> object option" where
  "objects_get w n = find (\<lambda>ob. obj_name ob = n) (objects w)"

definition objects_put :: "object \<Rightarrow> world \<Rightarrow> world" where
  \<comment> \<open>a write through a reference to the object of that name\<close>
  "objects_put ob w =
     w\<lparr>objects := map (\<lambda>x. if obj_name x = obj_name ob then ob else x) (objects w)\<rparr>"

definition context_active_object :: "world \<Rightarrow> object option" where
  "context_active_object w =
     (case active_object w of None \<Rightarrow> None | Some n \<Rightarrow> objects_get w n)"

definition selected_objects :: "world \<Rightarrow> string list" where
  "selected_objects w = map obj_name (filter obj_select (objects w))"

definition materials_get :: "world \<Rightarrow> string \<Rightarrow> material option" where
  "materials_get w n = find (\<lambda>m. mat_name m = n) (materials w)"

definition materials_put :: "material \<Rightarrow> world \<Rightarrow> world" where
  "materials_put m w =
     w\<lparr>materials := map (\<lambda>x. if mat_name x = mat_name m then m else x) (materials w)\<rparr>"

definition active_material_name :: "object \<Rightarrow> string option" where
  \<comment> \<open>the material of the active slot, None for no slot or an empty one\<close>
  "active_material_name ob =
     (if active_material_index ob < length (material_slots ob)
      then material_slots ob ! active_material_index ob else None)"

definition obj_active_material :: "world \<Rightarrow> object \<Rightarrow> material option" where
  "obj_active_material w ob =
     (case active_material_name ob of None \<Rightarrow> None | Some n \<Rightarrow> materials_get w n)"

fun scan_principled :: "node list \<Rightarrow> node option \<Rightarrow> node option" where
  \<comment> \<open>the loop over \<^verbatim>\<open>material.node_tree.nodes\<close>: every match overwrites the last\<close>
  "scan_principled [] principled_node = principled_node"
| "scan_principled (nd # nds) principled_node =
     scan_principled nds
       (if nd_type nd = ''BSDF_PRINCIPLED'' then Some nd else principled_node)"

definition promotion_warning :: "string \<Rightarrow> string \<Rightarrow> string" where
  "promotion_warning model_name layer_name =
     ''No UV map was active for render on '' @ quoted model_name @
     ''. Automatically set '' @ quoted layer_name @ '' as active for render.''"

definition selection_warning :: "world \<Rightarrow> string list" where
  \<comment> \<open>the warning of line 225, when it is given\<close>
  "selection_warning w =
     (if length (selected_objects w) > 1
      then [''More than one object selected. Baking only the active object.''] else [])"

definition validate_render_uv :: "host \<Rightarrow> object \<Rightarrow> world \<Rightarrow> world + (object \<times> nat \<times> world)" where
  \<comment> \<open>lines 234 to 258: the layer marked for render, the first layer promoted when
      none is; \<open>Inl\<close> is the cancelled return\<close>
  "validate_render_uv h model w =
     (case find_index active_render (uv_layers model) of
        Some i \<Rightarrow> Inr (model, i, w)
      | None \<Rightarrow>
          (case uv_layers model of
             [] \<Rightarrow>
               Inl (report ERROR (''Model '' @ quoted (obj_name model) @ '' has uv_layers collection but it is empty.'') w)
           | first_layer # rest \<Rightarrow>
               (case uv_set_active_render_exn h of
                  Some e \<Rightarrow>
                    Inl (report ERROR (''Failed to set active_render on UV layer '' @ quoted (uv_name first_layer) @ '': '' @ str_exn e) w)
                | None \<Rightarrow>
                    (let model' = model\<lparr>uv_layers := first_layer\<lparr>active_render := True\<rparr> # rest\<rparr>;
                         w1 = objects_put model' w;
                         w2 = report WARNING
                                (promotion_warning (obj_name model) (uv_name first_layer)) w1
                     in Inr (model', 0, w2)))))"

definition validate_active_uv :: "host \<Rightarrow> object \<Rightarrow> nat \<Rightarrow> world \<Rightarrow> world + (object \<times> world)" where
  \<comment> \<open>lines 262 to 273\<close>
  "validate_active_uv h model render_uv_layer w =
     (if uv_active model = None then
        (case uv_set_active_exn h of
           None \<Rightarrow>
             (let model' = model\<lparr>uv_active := Some render_uv_layer\<rparr>
              in Inr (model', objects_put model' w))
         | Some e \<Rightarrow>
             (if uv_layers model = [] then
                Inl (report ERROR (''Failed to set any active UV layer for '' @ quoted (obj_name model) @ ''.'') w)
              else
                (let model' = model\<lparr>uv_active := Some 0\<rparr>
                 in Inr (model', objects_put model' w))))
      else Inr (model, w))"

definition validate_material :: "object \<Rightarrow> world \<Rightarrow> validation \<times> world" where
  \<comment> \<open>lines 281 to 312\<close>
  "validate_material model w =
     (case obj_active_material w model of
        None \<Rightarrow>
          (Cancelled, report ERROR (''Model '' @ quoted (obj_name model) @ '' has no active material.'') w)
      | Some mat \<Rightarrow>
          (if \<not> use_nodes mat then
             (Cancelled, report ERROR (''Active material '' @ quoted (mat_name mat) @ '' on '' @ quoted (obj_name model) @ '' must have nodes enabled.'') w)
           else
             (case scan_principled (mat_nodes mat) None of
                None \<Rightarrow>
                  (Cancelled, report ERROR (''Active material '' @ quoted (mat_name mat) @ '' must contain a Principled BSDF node.'') w)
              | Some principled_node \<Rightarrow>
                  (Validated (obj_name model) (mat_name mat) (nd_name principled_node), w))))"

definition validateRequirements :: "host \<Rightarrow> world \<Rightarrow> validation \<times> world" where
  "validateRequirements h w =
     (case context_active_object w of
        None \<Rightarrow> (Cancelled, report ERROR ''No active object selected.'' w)
      | Some model \<Rightarrow>
          (if obj_type model \<noteq> ''MESH'' then
             (Cancelled, report ERROR (''Active object '' @ quoted (obj_name model) @ '' is not a Mesh.'') w)
           else
             (let w1 = (if length (selected_objects w) > 1
                        then report WARNING
                          ''More than one object selected. Baking only the active object.'' w
                        else w)
              in if uv_layers model = [] then
                   (Cancelled, report ERROR (''Model '' @ quoted (obj_name model) @ '' has no UV maps.'') w1)
                 else
                   (case validate_render_uv h model w1 of
                      Inl w2 \<Rightarrow> (Cancelled, w2)
                    | Inr (model2, render_uv_layer, w2) \<Rightarrow>
                        (case validate_active_uv h model2 render_uv_layer w2 of
                           Inl w3 \<Rightarrow> (Cancelled, w3)
                         | Inr (model3, w3) \<Rightarrow> validate_material model3 w3)))))"

section \<open>The bake target node and the four bake methods\<close>

definition bake_node_name :: string where
  "bake_node_name = ''BakeTargetNode''"

fun remove_first_named :: "string \<Rightarrow> node list \<Rightarrow> node list" where
  \<comment> \<open>\<^verbatim>\<open>nodes.remove(node)\<close> for the node that \<^verbatim>\<open>nodes.get(name)\<close> returned\<close>
  "remove_first_named n [] = []"
| "remove_first_named n (nd # nds) =
     (if nd_name nd = n then nds else nd # remove_first_named n nds)"

definition add_bake_image_node :: "material \<Rightarrow> string \<Rightarrow> node \<times> material" where
  \<comment> \<open>\<^verbatim>\<open>nodes\<close> is the node collection of the material, \<^verbatim>\<open>image\<close> is passed by name;
      the name given to the new node goes through the collection's uniqueness rule\<close>
  "add_bake_image_node m image_name =
     (let kept = filter (\<lambda>nd. \<not> (nd_type nd = ''TEX_IMAGE'' \<and> nd_name nd = bake_node_name))
                   (mat_nodes m);
          image_node = \<lparr>nd_name = unique_name (map nd_name kept) bake_node_name,
                        nd_type = ''TEX_IMAGE'',
                        nd_label = ''Bake Target ('' @ image_name @ '')'',
                        nd_image = Some image_name,
                        nd_select = True\<rparr>
      in (image_node,
          m\<lparr>mat_nodes := kept @ [image_node], nodes_active := Some (nd_name image_node)\<rparr>))"

definition remove_bake_image_node :: "material \<Rightarrow> material" where
  "remove_bake_image_node m =
     (case find (\<lambda>nd. nd_name nd = bake_node_name) (mat_nodes m) of
        None \<Rightarrow> m
      | Some node_to_remove \<Rightarrow>
          m\<lparr>mat_nodes := remove_first_named (nd_name node_to_remove) (mat_nodes m),
            nodes_active := (if nodes_active m = Some (nd_name node_to_remove) then None
                             else nodes_active m)\<rparr>)"

definition bake_target :: "world \<Rightarrow> image option" where
  \<comment> \<open>Modelled from the spec: the bake service of the host, which is no code of the
      add-on, writes into the currently targeted image buffer.  The target is the image
      of the active node of the active material of the active object.\<close>
  "bake_target w =
     (case context_active_object w of
        None \<Rightarrow> None
      | Some ob \<Rightarrow>
          (case obj_active_material w ob of
             None \<Rightarrow> None
           | Some m \<Rightarrow>
               (case nodes_active m of
                  None \<Rightarrow> None
                | Some n \<Rightarrow>
                    (case find (\<lambda>nd. nd_name nd = n) (mat_nodes m) of
                       None \<Rightarrow> None
                     | Some nd \<Rightarrow>
                         (if nd_type nd \<noteq> ''TEX_IMAGE'' then None
                          else case nd_image nd of
                                 None \<Rightarrow> None
                               | Some i \<Rightarrow> images_get w i)))))"

definition object_bake :: "host \<Rightarrow> string \<Rightarrow> world \<Rightarrow> exn option \<times> world" where
  \<comment> \<open>\<^verbatim>\<open>bpy.ops.object.bake(type=bake_type)\<close>: the call is logged, the host's service
      either raises or leaves its result in the target, under the target's name\<close>
  "object_bake h bake_type w =
     (let w1 = w\<lparr>bake_log := bake_log w @ [bake_type]\<rparr>
      in case bake_target w1 of
           None \<Rightarrow> (Some (RuntimeError ''No active image found in material''), w1)
         | Some target \<Rightarrow>
             (case bake_service h bake_type target of
                Inl e \<Rightarrow> (Some e, w1)
              | Inr baked \<Rightarrow> (None, images_put (baked\<lparr>img_name := img_name target\<rparr>) w1)))"

definition finally_remove_node :: "string \<Rightarrow> world \<Rightarrow> world" where
  \<comment> \<open>the \<^verbatim>\<open>finally\<close> of a bake method once \<^verbatim>\<open>image_node\<close> is bound\<close>
  "finally_remove_node material_name w =
     (case materials_get w material_name of
        None \<Rightarrow> w
      | Some m \<Rightarrow> materials_put (remove_bake_image_node m) w)"

definition ensure_non_color :: "string \<Rightarrow> world \<Rightarrow> world" where
  \<comment> \<open>\<^verbatim>\<open>if image.colorspace_settings.name != 'Non-Color': ... = 'Non-Color'\<close>\<close>
  "ensure_non_color image_name w =
     (case images_get w image_name of
        None \<Rightarrow> w
      | Some img \<Rightarrow>
          (if colorspace_name img \<noteq> ''Non-Color''
           then images_put (img\<lparr>colorspace_name := ''Non-Color''\<rparr>) w else w))"

definition ensure_float :: "string \<Rightarrow> world \<Rightarrow> world" where
  \<comment> \<open>\<^verbatim>\<open>if not image.use_generated_float: image.use_generated_float = True\<close>\<close>
  "ensure_float image_name w =
     (case images_get w image_name of
        None \<Rightarrow> w
      | Some img \<Rightarrow>
          (if \<not> use_generated_float img
           then images_put (img\<lparr>use_generated_float := True\<rparr>) w else w))"

definition bake_via_node ::
  "host \<Rightarrow> string \<Rightarrow> string \<Rightarrow> (world \<Rightarrow> world) \<Rightarrow> (world \<Rightarrow> world) \<Rightarrow> string \<Rightarrow> world \<Rightarrow>
     exn option \<times> world" where
  \<comment> \<open>the body the four methods share: the checks on the image that precede the node,
      the node, the bake settings of the map, the bake, and the \<^verbatim>\<open>finally\<close> that
      removes the node\<close>
  "bake_via_node h image_name material_name checks settings bake_type w =
     (case materials_get w material_name of
        None \<Rightarrow> (Some (HostError ''ReferenceError''), w)
      | Some m \<Rightarrow>
          (let w0 = checks w;
               (image_node, m1) = add_bake_image_node m image_name;
               w1 = materials_put m1 w0;
               w2 = settings w1;
               (r, w3) = object_bake h bake_type w2
           in (r, finally_remove_node material_name w3)))"

definition bake_diffuse :: "host \<Rightarrow> string \<Rightarrow> string \<Rightarrow> string \<Rightarrow> world \<Rightarrow> exn option \<times> world" where
  "bake_diffuse h image_name map_type material_name w =
     bake_via_node h image_name material_name (\<lambda>w. w)
       (\<lambda>w. w\<lparr>use_pass_direct := False, use_pass_indirect := False, use_pass_color := True\<rparr>)
       ''DIFFUSE'' w"

definition bake_normal :: "host \<Rightarrow> string \<Rightarrow> string \<Rightarrow> string \<Rightarrow> world \<Rightarrow> exn option \<times> world" where
  "bake_normal h image_name map_type material_name w =
     bake_via_node h image_name material_name
       (\<lambda>w. ensure_float image_name (ensure_non_color image_name w))
       (\<lambda>w. w\<lparr>normal_space := ''TANGENT'', normal_r := ''POS_X'', normal_g := ''POS_Y'',
              normal_b := ''POS_Z''\<rparr>)
       ''NORMAL'' w"

definition bake_roughness :: "host \<Rightarrow> string \<Rightarrow> string \<Rightarrow> string \<Rightarrow> world \<Rightarrow> exn option \<times> world" where
  "bake_roughness h image_name map_type material_name w =
     bake_via_node h image_name material_name (ensure_non_color image_name) (\<lambda>w. w)
       ''ROUGHNESS'' w"

definition bake_ao :: "host \<Rightarrow> string \<Rightarrow> string \<Rightarrow> string \<Rightarrow> world \<Rightarrow> exn option \<times> world" where
  "bake_ao h image_name map_type material_name w =
     bake_via_node h image_name material_name (ensure_non_color image_name) (\<lambda>w. w)
       ''AO'' w"

section \<open>\<^verbatim>\<open>execute\<close>\<close>

record snapshot =
  original_engine :: string
  original_render_samples :: int
  original_use_selected_to_active :: bool
  original_active_object :: "string option"
  original_selected_objects :: "string list"

definition take_snapshot :: "world \<Rightarrow> snapshot" where
  \<comment> \<open>lines 47 to 51\<close>
  "take_snapshot w =
     \<lparr>original_engine = engine w,
      original_render_samples = samples w,
      original_use_selected_to_active = use_selected_to_active w,
      original_active_object = active_object w,
      original_selected_objects = selected_objects w\<rparr>"

definition select_all_deselect :: "host \<Rightarrow> world \<Rightarrow> exn option \<times> world" where
  \<comment> \<open>\<^verbatim>\<open>bpy.ops.object.select_all(action='DESELECT')\<close>\<close>
  "select_all_deselect h w =
     (case select_all_exn h of
        Some e \<Rightarrow> (Some e, w)
      | None \<Rightarrow> (None, w\<lparr>objects := map (\<lambda>ob. ob\<lparr>obj_select := False\<rparr>) (objects w)\<rparr>))"

definition select_set :: "string \<Rightarrow> bool \<Rightarrow> world \<Rightarrow> world" where
  \<comment> \<open>\<^verbatim>\<open>obj.select_set(state)\<close> on the object of that name\<close>
  "select_set n state w =
     w\<lparr>objects := map (\<lambda>ob. if obj_name ob = n then ob\<lparr>obj_select := state\<rparr> else ob)
                     (objects w)\<rparr>"

definition makedirs :: "host \<Rightarrow> string \<Rightarrow> world \<Rightarrow> exn option \<times> world" where
  "makedirs h path w =
     (case makedirs_exn h path of
        Some e \<Rightarrow> (Some e, w)
      | None \<Rightarrow> (None, w\<lparr>dirs := dirs w @ [path]\<rparr>))"

definition ensure_material :: "string \<Rightarrow> string \<Rightarrow> world \<Rightarrow> exn option \<times> world" where
  \<comment> \<open>lines 79 to 94\<close>
  "ensure_material model_name material_name w =
     (case objects_get w model_name of
        None \<Rightarrow> (Some (HostError ''ReferenceError''), w)
      | Some model \<Rightarrow>
          (let searched =
                 (if active_material_name model \<noteq> Some material_name then
                    (case find_index (\<lambda>slot. slot = Some material_name) (material_slots model) of
                       Some i \<Rightarrow> Inr (model\<lparr>active_material_index := i\<rparr>)
                     | None \<Rightarrow> Inl (RuntimeError (''Material '' @ quoted (material_name) @ '' missing from object.'')))
                  else Inr model)
           in case searched of
                Inl e \<Rightarrow>
                  (Some e, report ERROR (''Original material '' @ quoted (material_name) @ '' not found in object slots.'') w)
              | Inr model' \<Rightarrow>
                  (let w1 = objects_put model' w
                   in if obj_active_material w1 model' = None \<or>
                         active_material_name model' \<noteq> Some material_name
                      then (Some (RuntimeError ''Failed to set active material.''),
                            report ERROR (''Could not set original material '' @ quoted (material_name) @ '' active on model.'') w1)
                      else (None, w1))))"

definition apply_settings :: "host \<Rightarrow> props \<Rightarrow> string \<Rightarrow> string \<Rightarrow> world \<Rightarrow> (exn + string) \<times> world" where
  \<comment> \<open>lines 55 to 94; \<open>Inr\<close> carries \<^verbatim>\<open>output_path\<close>, \<open>Inl\<close> the exception that leaves
      the \<^verbatim>\<open>try\<close> for the handler of line 168\<close>
  "apply_settings h p model_name material_name w =
     (let w1 = w\<lparr>engine := ''CYCLES''\<rparr>;
          bake_sample_count = 32;
          w2 = w1\<lparr>samples := bake_sample_count\<rparr>;
          w3 = w2\<lparr>use_selected_to_active := False\<rparr>
      in case select_all_deselect h w3 of
           (Some e, w4) \<Rightarrow> (Inl e, w4)
         | (None, w4) \<Rightarrow>
             (let w5 = w4\<lparr>active_object := Some model_name\<rparr>;
                  w6 = select_set model_name True w5;
                  output_path0 = abspath h (output_folder p);
                  output_path = (if subfolder_for_size p
                                 then path_join output_path0 (str_nat (texture_size p))
                                 else output_path0)
              in case (if output_path \<notin> set (dirs w6) then makedirs h output_path w6
                       else (None, w6)) of
                   (Some e, w7) \<Rightarrow> (Inl e, w7)
                 | (None, w7) \<Rightarrow>
                     (case ensure_material model_name material_name w7 of
                        (Some e, w8) \<Rightarrow> (Inl e, w8)
                      | (None, w8) \<Rightarrow> (Inr output_path, w8))))"

type_synonym bake_method = "host \<Rightarrow> string \<Rightarrow> string \<Rightarrow> string \<Rightarrow> world \<Rightarrow> exn option \<times> world"

definition map_types :: "props \<Rightarrow> (string \<times> bool \<times> bake_method) list" where
  "map_types p =
     [(''Diffuse'', bake_diffuse_p p, bake_diffuse),
      (''Roughness'', bake_roughness_p p, bake_roughness),
      (''Normal'', bake_normal_p p, bake_normal),
      (''AO'', bake_ao_p p, bake_ao)]"

definition solid_color_warning :: "string \<Rightarrow> string" where
  "solid_color_warning image_name =
     ''Normal map '' @ quoted image_name @
     '' may be solid color. Check geometry, normals, or material'' @ apostrophe @
     ''s Normal input.''"

definition check_normal_solid :: "host \<Rightarrow> string \<Rightarrow> string \<Rightarrow> world \<Rightarrow> exn option \<times> world" where
  \<comment> \<open>lines 128 to 130\<close>
  "check_normal_solid h map_type image_name w =
     (if map_type = ''Normal'' then
        (case images_get w image_name of
           None \<Rightarrow> (Some (HostError ''ReferenceError''), w)
         | Some img \<Rightarrow>
             (if is_image_solid_color h img
              then (None, report WARNING (solid_color_warning (img_name img)) w)
              else (None, w)))
      else (None, w))"

definition bake_map_body ::
  "host \<Rightarrow> props \<Rightarrow> string \<Rightarrow> string \<Rightarrow> string \<Rightarrow> bake_method \<Rightarrow> string list \<Rightarrow> world \<Rightarrow>
     exn option \<times> string option \<times> string list \<times> world" where
  \<comment> \<open>lines 113 to 130, the body of the \<^verbatim>\<open>try\<close> for one map: the exception that leaves
      it if any, the local \<^verbatim>\<open>image\<close> (None as line 111 set it, until line 119 has
      returned), \<^verbatim>\<open>baked_images\<close> and the session\<close>
  "bake_map_body h p model_name material_name map_type bake_method baked_images w =
     (let image_name = model_name @ ''_'' @ map_type;
          w1 = (if image_name \<in> set (image_names w) then images_remove image_name w else w)
      in case create_image_on h image_name (texture_size p) map_type w1 of
           (Inl e, w2) \<Rightarrow> (Some e, None, baked_images, w2)
         | (Inr img, w2) \<Rightarrow>
             (let baked_images' = baked_images @ [img_name img]
              in case bake_method h (img_name img) map_type material_name w2 of
                   (Some e, w3) \<Rightarrow> (Some e, Some (img_name img), baked_images', w3)
                 | (None, w3) \<Rightarrow>
                     (case check_normal_solid h map_type (img_name img) w3 of
                        (r, w4) \<Rightarrow> (r, Some (img_name img), baked_images', w4))))"

definition bake_map_failed ::
  "exn \<Rightarrow> string \<Rightarrow> string option \<Rightarrow> string list \<Rightarrow> world \<Rightarrow> string list \<times> world" where
  \<comment> \<open>lines 132 to 139, the handler of one map\<close>
  "bake_map_failed e map_type image_opt baked_images w =
     (let w1 = report ERROR (''Failed during '' @ map_type @ '' bake: '' @ str_exn e) w
      in case image_opt of
           None \<Rightarrow> (baked_images, w1)
         | Some n \<Rightarrow>
             (if n \<in> set (image_names w1)
              then ((if n \<in> set baked_images then remove1 n baked_images else baked_images),
                    images_remove n w1)
              else (baked_images, w1)))"

fun bake_maps ::
  "host \<Rightarrow> props \<Rightarrow> string \<Rightarrow> string \<Rightarrow> (string \<times> bool \<times> bake_method) list \<Rightarrow> string list \<Rightarrow> world \<Rightarrow>
     bool \<times> string list \<times> world" where
  \<comment> \<open>the loop of line 107: \<^verbatim>\<open>bake_successful\<close>, \<^verbatim>\<open>baked_images\<close> and the session\<close>
  "bake_maps h p model_name material_name [] baked_images w = (True, baked_images, w)"
| "bake_maps h p model_name material_name ((map_type, should_bake, bake_method) # rest)
     baked_images w =
     (if \<not> should_bake then bake_maps h p model_name material_name rest baked_images w
      else
        (case bake_map_body h p model_name material_name map_type bake_method baked_images w of
           (None, image_opt, baked_images', w1) \<Rightarrow>
             bake_maps h p model_name material_name rest baked_images' w1
         | (Some e, image_opt, baked_images', w1) \<Rightarrow>
             (case bake_map_failed e map_type image_opt baked_images' w1 of
                (baked_images'', w2) \<Rightarrow> (False, baked_images'', w2))))"

definition prepare_for_save :: "string \<Rightarrow> image \<Rightarrow> image" where
  \<comment> \<open>lines 147 to 155: path, format, and the colour space of a Normal map checked
      once more\<close>
  "prepare_for_save output_path img =
     (let image_filepath = path_join output_path (img_name img @ ''.png'');
          img1 = img\<lparr>filepath_raw := image_filepath, file_format := ''PNG''\<rparr>
      in if endswith (img_name img1) ''_Normal'' \<and> colorspace_name img1 \<noteq> ''Non-Color''
         then img1\<lparr>colorspace_name := ''Non-Color''\<rparr> else img1)"

fun save_images :: "host \<Rightarrow> string \<Rightarrow> string list \<Rightarrow> bool \<Rightarrow> world \<Rightarrow> bool \<times> world" where
  \<comment> \<open>the loop of line 145, with \<^verbatim>\<open>bake_successful\<close> threaded through\<close>
  "save_images h output_path [] bake_successful w = (bake_successful, w)"
| "save_images h output_path (n # rest) bake_successful w =
     (case images_get w n of
        None \<Rightarrow> save_images h output_path rest bake_successful w
      | Some img \<Rightarrow>
          (let img2 = prepare_for_save output_path img;
               w1 = images_put img2 w
           in case save_exn h img2 of
                None \<Rightarrow>
                  save_images h output_path rest bake_successful
                    (w1\<lparr>files := files w1 @ [(filepath_raw img2, img2)]\<rparr>)
              | Some e \<Rightarrow>
                  save_images h output_path rest False
                    (report ERROR (''Failed to save image '' @ img_name img2 @ '' to '' @
                       filepath_raw img2 @ '': '' @ str_exn e) w1)))"

definition cleanup_images :: "string list \<Rightarrow> world \<Rightarrow> world" where
  \<comment> \<open>lines 177 to 183\<close>
  "cleanup_images baked_images w =
     fold (\<lambda>n w. if n \<in> set (image_names w) then images_remove n w else w) baked_images w"

definition restore_settings :: "host \<Rightarrow> snapshot \<Rightarrow> world \<Rightarrow> exn option \<times> world" where
  \<comment> \<open>lines 188 to 199\<close>
  "restore_settings h snap w =
     (let w1 = w\<lparr>engine := original_engine snap\<rparr>;
          w2 = w1\<lparr>samples := original_render_samples snap\<rparr>;
          w3 = w2\<lparr>use_selected_to_active := original_use_selected_to_active snap\<rparr>
      in case select_all_deselect h w3 of
           (Some e, w4) \<Rightarrow> (Some e, w4)
         | (None, w4) \<Rightarrow>
             (let w5 = fold (\<lambda>n w. if n \<in> set (map obj_name (objects w))
                                    then select_set n True w else w)
                         (original_selected_objects snap) w4;
                  w6 = (case original_active_object snap of
                          None \<Rightarrow> w5
                        | Some n \<Rightarrow>
                            (if n \<in> set (map obj_name (objects w5))
                             then w5\<lparr>active_object := Some n\<rparr> else w5))
              in (None, w6)))"

definition finally_block ::
  "host \<Rightarrow> snapshot \<Rightarrow> string list option \<Rightarrow> string option \<Rightarrow> bool \<Rightarrow> world \<Rightarrow> outcome \<times> world" where
  \<comment> \<open>lines 174 to 209.  \<^verbatim>\<open>baked_images\<close> and \<^verbatim>\<open>output_path\<close> are locals first assigned
      inside the \<^verbatim>\<open>try\<close>: None is the local still unbound, and reading it raises
      \<^verbatim>\<open>UnboundLocalError\<close>, which leaves \<^verbatim>\<open>execute\<close> from inside the \<^verbatim>\<open>finally\<close>\<close>
  "finally_block h snap baked_images_opt output_path_opt bake_successful w =
     (case baked_images_opt of
        None \<Rightarrow>
          (Raised (UnboundLocalError
             (''cannot access local variable '' @ quoted ''baked_images'' @
              '' where it is not associated with a value'')), w)
      | Some baked_images \<Rightarrow>
          (let w1 = cleanup_images baked_images w
           in case restore_settings h snap w1 of
                (Some e, w2) \<Rightarrow> (Raised e, w2)
              | (None, w2) \<Rightarrow>
                  (if bake_successful then
                     (case output_path_opt of
                        None \<Rightarrow>
                          (Raised (UnboundLocalError
                             (''cannot access local variable '' @ quoted ''output_path'' @
                              '' where it is not associated with a value'')), w2)
                      | Some output_path \<Rightarrow>
                          (Returned FINISHED,
                           report INFO (''Baking process finished. Maps saved to: '' @ output_path) w2))
                   else
                     (Returned CANCELLED,
                      report ERROR
                        ''Baking process failed or was interrupted. Check console/log.'' w2))))"

definition bake_and_save ::
  "host \<Rightarrow> props \<Rightarrow> string \<Rightarrow> string \<Rightarrow> string \<Rightarrow> world \<Rightarrow> bool \<times> string list \<times> world" where
  \<comment> \<open>lines 97 to 165: the bake loop, then the save loop behind its gate\<close>
  "bake_and_save h p model_name material_name output_path w =
     (case bake_maps h p model_name material_name (map_types p) [] w of
        (bake_successful, baked_images, w1) \<Rightarrow>
          (if bake_successful \<and> baked_images \<noteq> [] then
             (case save_images h output_path baked_images bake_successful w1 of
                (bake_successful', w2) \<Rightarrow> (bake_successful', baked_images, w2))
           else (bake_successful, baked_images, w1)))"

definition execute :: "host \<Rightarrow> props \<Rightarrow> world \<Rightarrow> outcome \<times> world" where
  "execute h p w =
     (case validateRequirements h w of
        (Cancelled, w1) \<Rightarrow> (Returned CANCELLED, w1)
      | (Validated model_name material_name principled_node, w1) \<Rightarrow>
          (let snap = take_snapshot w1
           in case apply_settings h p model_name material_name w1 of
                (Inl e, w2) \<Rightarrow>
                  finally_block h snap None None False
                    (report ERROR (''Error during bake setup: '' @ str_exn e) w2)
              | (Inr output_path, w2) \<Rightarrow>
                  (case bake_and_save h p model_name material_name output_path w2 of
                     (bake_successful, baked_images, w3) \<Rightarrow>
                       finally_block h snap (Some baked_images) (Some output_path)
                         bake_successful w3)))"

subsection \<open>What a phase leaves alone\<close>

definition settings_frame :: "world \<Rightarrow> world \<Rightarrow> bool" where
  \<comment> \<open>the snapshotted settings, the objects and the files on disk are the same\<close>
  "settings_frame w w' \<longleftrightarrow>
     engine w' = engine w \<and> samples w' = samples w \<and>
     use_selected_to_active w' = use_selected_to_active w \<and>
     active_object w' = active_object w \<and> objects w' = objects w \<and>
     dirs w' = dirs w \<and> files w' = files w"

definition saved_settings :: "world \<Rightarrow> (string \<times> string \<times> bool) list" where
  \<comment> \<open>name, colour space and float flag of every image as it was written to disk\<close>
  "saved_settings w =
     map (\<lambda>(path, img). (img_name img, colorspace_name img, use_generated_float img)) (files w)"

definition scene_frame :: "world \<Rightarrow> world \<Rightarrow> bool" where
  \<comment> \<open>the snapshotted settings and the objects are the same\<close>
  "scene_frame w w' \<longleftrightarrow>
     engine w' = engine w \<and> samples w' = samples w \<and>
     use_selected_to_active w' = use_selected_to_active w \<and>
     active_object w' = active_object w \<and> objects w' = objects w"

definition method_ok :: "bake_method \<Rightarrow> bool" where
  \<comment> \<open>a bake method that keeps to the material, the images it is given and the bake
      settings: it leaves the frame alone and neither adds nor removes an image\<close>
  "method_ok bake_method \<longleftrightarrow>
     (\<forall>h i mt m w. settings_frame w (snd (bake_method h i mt m w)) \<and>
                   image_names (snd (bake_method h i mt m w)) = image_names w)"

definition selection_frame :: "world \<Rightarrow> world \<Rightarrow> bool" where
  \<comment> \<open>the snapshotted settings, the active object, and the name and selection state
      of every object are the same\<close>
  "selection_frame w w' \<longleftrightarrow>
     engine w' = engine w \<and> samples w' = samples w \<and>
     use_selected_to_active w' = use_selected_to_active w \<and>
     active_object w' = active_object w \<and>
     map obj_name (objects w') = map obj_name (objects w) \<and>
     map obj_select (objects w') = map obj_select (objects w)"

definition float_kept :: "host \<Rightarrow> bool" where
  \<comment> \<open>a bake service that hands the buffer back with the precision it came with\<close>
  "float_kept h \<longleftrightarrow>
     (\<forall>t img img'. bake_service h t img = Inr img' \<longrightarrow>
                    use_generated_float img' = use_generated_float img)"

definition floats_at :: "string \<Rightarrow> world \<Rightarrow> bool" where
  \<comment> \<open>every image of that name in the session is a 32-bit float image\<close>
  "floats_at n w \<longleftrightarrow> (\<forall>img\<in>set (images w). img_name img = n \<longrightarrow> use_generated_float img)"

definition graph_nodes :: "world \<Rightarrow> (string \<times> string) list list" where
  \<comment> \<open>name and type of every node, material by material\<close>
  "graph_nodes w = map (\<lambda>m. map (\<lambda>nd. (nd_name nd, nd_type nd)) (mat_nodes m)) (materials w)"

definition method_float :: "bake_method \<Rightarrow> bool" where
  \<comment> \<open>a bake method that leaves 32-bit float images 32-bit float, on a host whose bake
      service does\<close>
  "method_float bake_method \<longleftrightarrow>
     (\<forall>h i mt m w n. float_kept h \<longrightarrow> floats_at n w \<longrightarrow>
                     floats_at n (snd (bake_method h i mt m w)))"

definition saved_ok :: "string list \<Rightarrow> world \<Rightarrow> string \<times> image \<Rightarrow> bool" where
  \<comment> \<open>what the save loop over the names \<open>ns\<close>, started in session \<open>w\<close>, guarantees
      of a file it writes\<close>
  "saved_ok ns w entry \<longleftrightarrow>
     (endswith (img_name (snd entry)) ''_Normal'' \<longrightarrow>
        colorspace_name (snd entry) = ''Non-Color'') \<and>
     img_name (snd entry) \<in> set ns \<and>
     (floats_at (img_name (snd entry)) w \<longrightarrow> use_generated_float (snd entry))"

section \<open>A concrete session\<close>

text \<open>
  A mesh \<^verbatim>\<open>Cube\<close> with one UV layer not marked for render and a material with a
  Principled BSDF node, next to a selected light; the render engine is EEVEE.  The
  configuration asks for all four maps at 512 pixels in a subfolder per size.
\<close>

definition cube :: object where
  "cube = \<lparr>obj_name = ''Cube'', obj_type = ''MESH'', obj_select = True,
            uv_layers = [\<lparr>uv_name = ''UVMap'', active_render = False\<rparr>],
            uv_active = Some 0,
            material_slots = [Some ''Material''], active_material_index = 0\<rparr>"

definition lamp :: object where
  "lamp = \<lparr>obj_name = ''Light'', obj_type = ''LIGHT'', obj_select = True,
            uv_layers = [], uv_active = None,
            material_slots = [], active_material_index = 0\<rparr>"

definition principled :: node where
  "principled = \<lparr>nd_name = ''Principled BSDF'', nd_type = ''BSDF_PRINCIPLED'',
                  nd_label = [], nd_image = None, nd_select = False\<rparr>"

definition output_node :: node where
  "output_node = \<lparr>nd_name = ''Material Output'', nd_type = ''OUTPUT_MATERIAL'',
                   nd_label = [], nd_image = None, nd_select = False\<rparr>"

definition cube_material :: material where
  "cube_material = \<lparr>mat_name = ''Material'', use_nodes = True,
                     mat_nodes = [principled, output_node],
                     nodes_active = Some ''Principled BSDF''\<rparr>"

definition scene :: world where
  "scene = \<lparr>engine = ''BLENDER_EEVEE_NEXT'', samples = 128, use_selected_to_active = True,
             use_pass_direct = True, use_pass_indirect = True, use_pass_color = True,
             normal_space = ''OBJECT'', normal_r = ''POS_X'', normal_g = ''POS_Y'',
             normal_b = ''POS_Z'',
             active_object = Some ''Cube'', objects = [cube, lamp],
             materials = [cube_material], images = [],
             dirs = [''/project''], files = [], reports = [], bake_log = []\<rparr>"

definition all_maps :: props where
  "all_maps = \<lparr>bake_diffuse_p = True, bake_roughness_p = True, bake_normal_p = True,
                bake_ao_p = True, texture_size = 512, output_folder = ''//baked_maps/'',
                subfolder_for_size = True\<rparr>"

definition baked_pixels :: "real list" where
  \<comment> \<open>two RGBA pixels that differ in the red channel\<close>
  "baked_pixels = [0.5, 0.5, 1, 1,  0.25, 0.5, 1, 1]"

definition studio :: host where
  \<comment> \<open>a host where every call succeeds and the bake fills the target with pixels\<close>
  "studio = \<lparr>uv_set_active_render_exn = None, uv_set_active_exn = None,
              select_all_exn = None,
              abspath = (\<lambda>p. ''/project/'' @ drop 2 p),
              makedirs_exn = (\<lambda>p. None),
              bake_service = (\<lambda>t img. Inr (img\<lparr>has_data := True, pixels := baked_pixels\<rparr>)),
              save_exn = (\<lambda>img. None),
              read_pixels = (\<lambda>img. Inr (pixels img)),
              colorspace_exn = (\<lambda>cs. None)\<rparr>"

definition flat_normal :: image where
  \<comment> \<open>a 2 by 1 float image whose two pixels are the neutral normal\<close>
  "flat_normal = \<lparr>img_name = ''Cube_Normal'', img_width = 2, img_height = 1, img_alpha = True,
                   generated_color = (0.5, 0.5, 1, 1), colorspace_name = ''Non-Color'',
                   use_generated_float = True, has_data = True, channels = 4,
                   pixels = [0.5, 0.5, 1, 1,  0.5, 0.5, 1, 1],
                   filepath_raw = [], file_format = ''PNG''\<rparr>"

definition denied :: host where
  \<comment> \<open>the studio host on a disk where the output directory cannot be created\<close>
  "denied = studio\<lparr>makedirs_exn := (\<lambda>p. Some (OSError ''Permission denied''))\<rparr>"

definition math_node :: node where
  \<comment> \<open>a Math node that the user has named like the bake target\<close>
  "math_node = \<lparr>nd_name = ''BakeTargetNode'', nd_type = ''MATH'',
                 nd_label = [], nd_image = None, nd_select = False\<rparr>"

definition clash_scene :: world where
  \<comment> \<open>the session with that node in the material and an image to bake into\<close>
  "clash_scene =
     scene\<lparr>materials := [cube_material\<lparr>mat_nodes := [principled, output_node, math_node]\<rparr>],
           images := [fst (create_image ''Cube_Diffuse'' 512 ''Diffuse'' scene),
                      fst (create_image ''Cube_Normal'' 512 ''Normal'' scene)]\<rparr>"

definition no_normals :: host where
  \<comment> \<open>the studio host with a bake service that fails on the Normal pass\<close>
  "no_normals =
     studio\<lparr>bake_service :=
       (\<lambda>t img. if t = ''NORMAL'' then Inl (RuntimeError ''No valid normals to bake'')
                 else Inr (img\<lparr>has_data := True, pixels := baked_pixels\<rparr>))\<rparr>"

definition eight_bit :: host where
  \<comment> \<open>the studio host with a bake service that hands the buffer back as an 8-bit
      sRGB image\<close>
  "eight_bit =
     studio\<lparr>bake_service :=
       (\<lambda>t img. Inr (img\<lparr>has_data := True, pixels := baked_pixels,
                          colorspace_name := ''sRGB'', use_generated_float := False\<rparr>))\<rparr>"

definition no_non_color :: host where
  \<comment> \<open>the studio host with a colour configuration that has no \<^verbatim>\<open>Non-Color\<close> space\<close>
  "no_non_color =
     studio\<lparr>colorspace_exn :=
       (\<lambda>cs. if cs = ''Non-Color''
             then Some (HostError ''TypeError: enum Non-Color not found in the color spaces'')
             else None)\<rparr>"

section \<open>The solid-colour check\<close>

lemma all_nat_split: "(\<forall>m::nat. P m) \<longleftrightarrow> P 0 \<and> (\<forall>m. P (Suc m))"
  by (metis nat.exhaust)

lemma compare_pixels_done:
  "c = 0 \<or> length pxs \<le> i \<Longrightarrow> compare_pixels pxs c f i"
  by (subst compare_pixels.simps) simp

lemma compare_pixels_skip:
  "\<not> (c = 0 \<or> length pxs \<le> i) \<Longrightarrow> length (take c (drop i pxs)) \<noteq> c \<Longrightarrow>
   compare_pixels pxs c f i = compare_pixels pxs c f (i + c)"
  by (subst compare_pixels.simps) (simp only: Let_def simp_thms if_True if_False)

lemma compare_pixels_differs:
  "\<not> (c = 0 \<or> length pxs \<le> i) \<Longrightarrow> length (take c (drop i pxs)) = c \<Longrightarrow>
   is_different f (take c (drop i pxs)) c \<Longrightarrow> \<not> compare_pixels pxs c f i"
  by (subst compare_pixels.simps) (simp only: Let_def simp_thms if_True if_False)

lemma compare_pixels_next:
  "\<not> (c = 0 \<or> length pxs \<le> i) \<Longrightarrow> length (take c (drop i pxs)) = c \<Longrightarrow>
   \<not> is_different f (take c (drop i pxs)) c \<Longrightarrow>
   compare_pixels pxs c f i = compare_pixels pxs c f (i + c)"
  by (subst compare_pixels.simps) (simp only: Let_def simp_thms if_True if_False)

lemma compare_pixels_iff:
  "0 < c \<Longrightarrow>
   compare_pixels pxs c f i \<longleftrightarrow>
     (\<forall>m. i + m * c + c \<le> length pxs \<longrightarrow> \<not> is_different f (take c (drop (i + m * c) pxs)) c)"
proof (induction pxs c f i rule: compare_pixels.induct)
  case (1 pxs c f i)
  let ?P = "\<lambda>m. i + m * c + c \<le> length pxs \<longrightarrow>
                 \<not> is_different f (take c (drop (i + m * c) pxs)) c"
  have shift: "\<And>m. (i + c) + m * c = i + Suc m * c" by simp
  show ?case
  proof (cases "length pxs \<le> i")
    case True
    with "1.prems" have "\<forall>m. \<not> (i + m * c + c \<le> length pxs)" by auto
    with True show ?thesis using compare_pixels_done [of c pxs i f] by blast
  next
    case False
    have guard: "\<not> (c = 0 \<or> length pxs \<le> i)" using False "1.prems" by simp
    show ?thesis
    proof (cases "length (take c (drop i pxs)) \<noteq> c")
      case True
      then have short: "length pxs < i + c" using guard by auto
      then have none: "\<forall>m. \<not> (i + m * c + c \<le> length pxs)" by auto
      have "compare_pixels pxs c f (i + c)"
        using short compare_pixels_done [of c pxs "i + c" f] by simp
      then have "compare_pixels pxs c f i"
        using compare_pixels_skip [OF guard True] by simp
      with none show ?thesis by blast
    next
      case F2: False
      then have len: "length (take c (drop i pxs)) = c" by blast
      then have full: "i + c \<le> length pxs" using guard by auto
      show ?thesis
      proof (cases "is_different f (take c (drop i pxs)) c")
        case True
        have "\<not> ?P 0" using full True by simp
        then have "\<not> (\<forall>m. ?P m)" by blast
        with compare_pixels_differs [OF guard len True] show ?thesis by blast
      next
        case F3: False
        have "compare_pixels pxs c f (i + c) \<longleftrightarrow>
                (\<forall>m. (i + c) + m * c + c \<le> length pxs \<longrightarrow>
                   \<not> is_different f (take c (drop ((i + c) + m * c) pxs)) c)"
          using "1.IH"(2) [OF guard refl _ F3 "1.prems"] F2 by blast
        then have ih: "compare_pixels pxs c f (i + c) \<longleftrightarrow> (\<forall>m. ?P (Suc m))"
          by (simp only: shift)
        have "?P 0" using F3 by simp
        then have "(\<forall>m. ?P m) \<longleftrightarrow> (\<forall>m. ?P (Suc m))"
          using all_nat_split [of ?P] by blast
        with ih compare_pixels_next [OF guard len F3] show ?thesis by blast
      qed
    qed
  qed
qed

lemma is_different_iff:
  "length g = c \<Longrightarrow>
   is_different f g c \<longleftrightarrow> (\<exists>j<c. \<bar>f ! j - g ! j\<bar> > 1/100)"
  by (auto simp: is_different_def tolerance_def list_ex_iff)

lemma solid_iff:
  assumes "0 < c" "pxs \<noteq> []"
  shows "compare_pixels pxs c (take c pxs) c \<longleftrightarrow>
         (\<forall>p j. j < c \<and> (p + 1) * c \<le> length pxs \<longrightarrow>
                \<bar>pxs ! j - pxs ! (p * c + j)\<bar> \<le> 1/100)"
proof -
  have step: "\<And>m. c + m * c + c \<le> length pxs \<Longrightarrow>
      (\<not> is_different (take c pxs) (take c (drop (c + m * c) pxs)) c) \<longleftrightarrow>
      (\<forall>j<c. \<bar>pxs ! j - pxs ! (Suc m * c + j)\<bar> \<le> 1/100)"
  proof -
    fix m assume le: "c + m * c + c \<le> length pxs"
    then have len: "length (take c (drop (c + m * c) pxs)) = c" by simp
    have idx: "\<And>j. j < c \<Longrightarrow> take c (drop (c + m * c) pxs) ! j = pxs ! (Suc m * c + j)"
      using le by (simp add: ac_simps)
    have fst: "\<And>j. j < c \<Longrightarrow> take c pxs ! j = pxs ! j" by simp
    have eq: "\<And>j. j < c \<Longrightarrow>
        (\<bar>take c pxs ! j - take c (drop (c + m * c) pxs) ! j\<bar> > 1/100) =
        (\<bar>pxs ! j - pxs ! (Suc m * c + j)\<bar> > 1/100)"
      by (simp only: idx fst)
    show "(\<not> is_different (take c pxs) (take c (drop (c + m * c) pxs)) c) \<longleftrightarrow>
      (\<forall>j<c. \<bar>pxs ! j - pxs ! (Suc m * c + j)\<bar> \<le> 1/100)"
      unfolding is_different_iff [OF len] using eq by (meson not_less)
  qed
  have "compare_pixels pxs c (take c pxs) c \<longleftrightarrow>
        (\<forall>m. c + m * c + c \<le> length pxs \<longrightarrow>
           (\<forall>j<c. \<bar>pxs ! j - pxs ! (Suc m * c + j)\<bar> \<le> 1/100))"
    unfolding compare_pixels_iff [OF assms(1)] using step by blast
  also have "\<dots> \<longleftrightarrow> (\<forall>p j. j < c \<and> (p + 1) * c \<le> length pxs \<longrightarrow>
                \<bar>pxs ! j - pxs ! (p * c + j)\<bar> \<le> 1/100)"
  proof
    assume a: "\<forall>m. c + m * c + c \<le> length pxs \<longrightarrow>
           (\<forall>j<c. \<bar>pxs ! j - pxs ! (Suc m * c + j)\<bar> \<le> 1/100)"
    show "\<forall>p j. j < c \<and> (p + 1) * c \<le> length pxs \<longrightarrow>
                \<bar>pxs ! j - pxs ! (p * c + j)\<bar> \<le> 1/100"
    proof (intro allI impI)
      fix p j assume h: "j < c \<and> (p + 1) * c \<le> length pxs"
      show "\<bar>pxs ! j - pxs ! (p * c + j)\<bar> \<le> 1/100"
      proof (cases p)
        case 0 then show ?thesis by simp
      next
        case (Suc m)
        with h have "c + m * c + c \<le> length pxs" by (simp add: ac_simps)
        with a h Suc show ?thesis by blast
      qed
    qed
  next
    assume b: "\<forall>p j. j < c \<and> (p + 1) * c \<le> length pxs \<longrightarrow>
                \<bar>pxs ! j - pxs ! (p * c + j)\<bar> \<le> 1/100"
    show "\<forall>m. c + m * c + c \<le> length pxs \<longrightarrow>
           (\<forall>j<c. \<bar>pxs ! j - pxs ! (Suc m * c + j)\<bar> \<le> 1/100)"
    proof (intro allI impI)
      fix m j assume "c + m * c + c \<le> length pxs" "j < c"
      then have "j < c \<and> (Suc m + 1) * c \<le> length pxs" by (simp add: ac_simps)
      with b show "\<bar>pxs ! j - pxs ! (Suc m * c + j)\<bar> \<le> 1/100" by blast
    qed
  qed
  finally show ?thesis .
qed

text \<open>
  C7: for an image with pixel data whose pixels can be read, \<^verbatim>\<open>is_image_solid_color\<close>
  returns True exactly when every channel of every pixel is within 0.01 of the same
  channel of the first pixel, so it returns False as soon as one pixel differs from the
  first by more than 0.01 in a channel.  When it returns True for the image of a Normal
  bake, the check after the bake reports a warning and raises nothing.
\<close>

theorem solid_color_detection:
  assumes "has_data img" and "pixels img \<noteq> []"
      and "img_width img \<noteq> 0" and "img_height img \<noteq> 0"
      and "read_pixels h img = Inr (pixels img)"
  shows "(is_image_solid_color h img \<longleftrightarrow>
            (\<forall>p j. j < channels img \<and> (p + 1) * channels img \<le> length (pixels img) \<longrightarrow>
                   \<bar>pixels img ! j - pixels img ! (p * channels img + j)\<bar> \<le> 1/100)) \<and>
         (is_image_solid_color h img \<and> images_get w n = Some img \<longrightarrow>
            check_normal_solid h ''Normal'' n w =
              (None, report WARNING (solid_color_warning (img_name img)) w))"
proof (cases "channels img = 0")
  case True
  with assms show ?thesis
    by (simp add: is_image_solid_color_def check_normal_solid_def)
next
  case False
  then have pos: "0 < channels img" by simp
  from assms False have "is_image_solid_color h img \<longleftrightarrow>
      compare_pixels (pixels img) (channels img) (take (channels img) (pixels img)) (channels img)"
    by (simp add: is_image_solid_color_def)
  with solid_iff [OF pos assms(2)] show ?thesis
    by (simp add: check_normal_solid_def)
qed

theorem solid_color_detection_witness:
  "is_image_solid_color studio flat_normal \<and>
   check_normal_solid studio ''Normal'' ''Cube_Normal'' (scene\<lparr>images := [flat_normal]\<rparr>) =
     (None, report WARNING (solid_color_warning ''Cube_Normal'') (scene\<lparr>images := [flat_normal]\<rparr>))"
proof -
  have h1: "has_data flat_normal" and h2: "pixels flat_normal \<noteq> []"
    and h3: "img_width flat_normal \<noteq> 0" and h4: "img_height flat_normal \<noteq> 0"
    and h5: "read_pixels studio flat_normal = Inr (pixels flat_normal)"
    by (simp_all add: flat_normal_def studio_def)
  have solid: "is_image_solid_color studio flat_normal"
    by code_simp
  have stored: "images_get (scene\<lparr>images := [flat_normal]\<rparr>) ''Cube_Normal'' = Some flat_normal"
    by (simp add: images_get_def flat_normal_def)
  have name: "img_name flat_normal = ''Cube_Normal''"
    by (simp add: flat_normal_def)
  from solid_color_detection [OF h1 h2 h3 h4 h5, of "scene\<lparr>images := [flat_normal]\<rparr>" "''Cube_Normal''"]
    solid stored name
  show ?thesis by simp
qed

text \<open>
  C10: \<^verbatim>\<open>is_image_solid_color\<close> returns False when the image has no pixel data, has
  zero width or height, or when reading its pixels raises, and then the check after a
  Normal bake reports nothing; past those guards it returns True when the copied pixel
  list is empty or the channel count is 0.
\<close>

theorem solid_color_degenerate:
  "(\<not> has_data img \<or> pixels img = [] \<or> img_width img = 0 \<or> img_height img = 0 \<or>
      (\<exists>e. read_pixels h img = Inl e) \<longrightarrow>
        \<not> is_image_solid_color h img \<and>
        (images_get w n = Some img \<longrightarrow> check_normal_solid h ''Normal'' n w = (None, w))) \<and>
   (has_data img \<and> pixels img \<noteq> [] \<and> img_width img \<noteq> 0 \<and> img_height img \<noteq> 0 \<and>
      (read_pixels h img = Inr [] \<or> (\<exists>pxs. read_pixels h img = Inr pxs \<and> channels img = 0)) \<longrightarrow>
        is_image_solid_color h img)"
  by (auto simp: is_image_solid_color_def check_normal_solid_def)

theorem solid_color_degenerate_witness:
  "\<not> is_image_solid_color studio (flat_normal\<lparr>has_data := False\<rparr>) \<and>
   \<not> is_image_solid_color studio (flat_normal\<lparr>pixels := []\<rparr>) \<and>
   \<not> is_image_solid_color studio (flat_normal\<lparr>img_width := 0\<rparr>) \<and>
   \<not> is_image_solid_color studio (flat_normal\<lparr>img_height := 0\<rparr>) \<and>
   \<not> is_image_solid_color (studio\<lparr>read_pixels := (\<lambda>i. Inl (HostError ''MemoryError''))\<rparr>)
        flat_normal \<and>
   check_normal_solid studio ''Normal'' ''Cube_Normal''
       (scene\<lparr>images := [flat_normal\<lparr>has_data := False\<rparr>]\<rparr>) =
     (None, scene\<lparr>images := [flat_normal\<lparr>has_data := False\<rparr>]\<rparr>) \<and>
   is_image_solid_color (studio\<lparr>read_pixels := (\<lambda>i. Inr [])\<rparr>) flat_normal \<and>
   is_image_solid_color studio (flat_normal\<lparr>channels := 0\<rparr>)"
proof -
  have stored: "images_get (scene\<lparr>images := [flat_normal\<lparr>has_data := False\<rparr>]\<rparr>) ''Cube_Normal'' =
                  Some (flat_normal\<lparr>has_data := False\<rparr>)"
    by (simp add: images_get_def flat_normal_def)
  show ?thesis
    using solid_color_degenerate [of "flat_normal\<lparr>has_data := False\<rparr>" studio
            "scene\<lparr>images := [flat_normal\<lparr>has_data := False\<rparr>]\<rparr>" "''Cube_Normal''"]
          solid_color_degenerate [of "flat_normal\<lparr>pixels := []\<rparr>" studio]
          solid_color_degenerate [of "flat_normal\<lparr>img_width := 0\<rparr>" studio]
          solid_color_degenerate [of "flat_normal\<lparr>img_height := 0\<rparr>" studio]
          solid_color_degenerate [of flat_normal
            "studio\<lparr>read_pixels := (\<lambda>i. Inl (HostError ''MemoryError''))\<rparr>"]
          solid_color_degenerate [of flat_normal "studio\<lparr>read_pixels := (\<lambda>i. Inr [])\<rparr>"]
          solid_color_degenerate [of "flat_normal\<lparr>channels := 0\<rparr>" studio]
          stored
    by (simp add: flat_normal_def studio_def)
qed

section \<open>Properties of \<^verbatim>\<open>create_image\<close>\<close>

text \<open>
  C6: \<^verbatim>\<open>create_image(name, size, mapType)\<close> returns a size-by-size image with alpha;
  Diffuse gets fill (0,0,0,1), sRGB and 8-bit precision; Roughness and AO get fill
  (0.5,0.5,0.5,1), Non-Color and 8-bit; Normal gets fill (0.5,0.5,1,1), Non-Color and
  32-bit float.  The returned image is the one the session holds.
\<close>

theorem create_image_table:
  "(let img = fst (create_image n sz mt w) in
      img_width img = sz \<and> img_height img = sz \<and> img_alpha img \<and>
      img \<in> set (images (snd (create_image n sz mt w))) \<and>
      (mt = ''Diffuse'' \<longrightarrow>
         generated_color img = (0, 0, 0, 1) \<and> colorspace_name img = ''sRGB'' \<and>
         \<not> use_generated_float img) \<and>
      (mt = ''Roughness'' \<or> mt = ''AO'' \<longrightarrow>
         generated_color img = (1/2, 1/2, 1/2, 1) \<and> colorspace_name img = ''Non-Color'' \<and>
         \<not> use_generated_float img) \<and>
      (mt = ''Normal'' \<longrightarrow>
         generated_color img = (1/2, 1/2, 1, 1) \<and> colorspace_name img = ''Non-Color'' \<and>
         use_generated_float img))"
  by (simp add: create_image_def images_new_def images_put_def Let_def)

theorem create_image_table_witness:
  "(let d = fst (create_image ''Cube_Diffuse'' 512 ''Diffuse'' scene);
        r = fst (create_image ''Cube_Roughness'' 512 ''Roughness'' scene);
        a = fst (create_image ''Cube_AO'' 512 ''AO'' scene);
        n = fst (create_image ''Cube_Normal'' 512 ''Normal'' scene) in
      generated_color d = (0, 0, 0, 1) \<and> colorspace_name d = ''sRGB'' \<and>
      \<not> use_generated_float d \<and>
      generated_color r = (1/2, 1/2, 1/2, 1) \<and> colorspace_name r = ''Non-Color'' \<and>
      \<not> use_generated_float r \<and>
      generated_color a = (1/2, 1/2, 1/2, 1) \<and> colorspace_name a = ''Non-Color'' \<and>
      \<not> use_generated_float a \<and>
      img_width n = 512 \<and> img_height n = 512 \<and> img_alpha n \<and>
      generated_color n = (1/2, 1/2, 1, 1) \<and> colorspace_name n = ''Non-Color'' \<and>
      use_generated_float n)"
  using create_image_table [of "''Cube_Diffuse''" 512 "''Diffuse''" scene]
        create_image_table [of "''Cube_Roughness''" 512 "''Roughness''" scene]
        create_image_table [of "''Cube_AO''" 512 "''AO''" scene]
        create_image_table [of "''Cube_Normal''" 512 "''Normal''" scene]
  by (simp add: Let_def)

section \<open>Validation\<close>

lemma errors_report [simp]:
  "errors (report sev msg w) = (if sev = ERROR then errors w @ [msg] else errors w)"
  by (simp add: errors_def report_def)

lemma errors_objects_put [simp]: "errors (objects_put ob w) = errors w"
  by (simp add: errors_def objects_put_def)

lemma materials_report [simp]: "materials (report sev msg w) = materials w"
  by (simp add: report_def)

lemma materials_objects_put [simp]: "materials (objects_put ob w) = materials w"
  by (simp add: objects_put_def)

lemma obj_active_material_cong:
  assumes "materials w' = materials w" and "material_slots ob' = material_slots ob"
      and "active_material_index ob' = active_material_index ob"
  shows "obj_active_material w' ob' = obj_active_material w ob"
proof -
  have "\<And>n. materials_get w' n = materials_get w n"
    using assms(1) by (simp add: materials_get_def)
  then show ?thesis
    using assms(2,3)
    by (simp add: obj_active_material_def active_material_name_def split: option.splits)
qed

lemma scan_principled_last:
  "scan_principled nds acc =
     (if filter (\<lambda>nd. nd_type nd = ''BSDF_PRINCIPLED'') nds = [] then acc
      else Some (last (filter (\<lambda>nd. nd_type nd = ''BSDF_PRINCIPLED'') nds)))"
  by (induction nds arbitrary: acc) auto

lemma validate_render_uv_ok:
  assumes "uv_layers model \<noteq> []" and "uv_set_active_render_exn h = None"
  shows "\<exists>model' i w'. validate_render_uv h model w = Inr (model', i, w') \<and>
           obj_name model' = obj_name model \<and>
           material_slots model' = material_slots model \<and>
           active_material_index model' = active_material_index model \<and>
           uv_layers model' \<noteq> [] \<and> materials w' = materials w \<and> errors w' = errors w"
  using assms
  by (cases "uv_layers model")
     (auto simp: validate_render_uv_def Let_def split: option.splits)

lemma validate_active_uv_ok:
  assumes "uv_layers model \<noteq> []"
  shows "\<exists>model' w'. validate_active_uv h model i w = Inr (model', w') \<and>
           obj_name model' = obj_name model \<and>
           material_slots model' = material_slots model \<and>
           active_material_index model' = active_material_index model \<and>
           materials w' = materials w \<and> errors w' = errors w"
  using assms
  by (auto simp: validate_active_uv_def Let_def split: option.splits)

lemma validate_reaches_material:
  assumes "context_active_object w = Some model" and "obj_type model = ''MESH''"
      and "uv_layers model \<noteq> []" and "uv_set_active_render_exn h = None"
  shows "\<exists>model' w'. validateRequirements h w = validate_material model' w' \<and>
           obj_name model' = obj_name model \<and>
           obj_active_material w' model' = obj_active_material w model \<and>
           errors w' = errors w"
proof -
  let ?w1 = "(if length (selected_objects w) > 1
              then report WARNING
                ''More than one object selected. Baking only the active object.'' w
              else w)"
  have e1: "errors ?w1 = errors w" and m1: "materials ?w1 = materials w" by simp_all
  from validate_render_uv_ok [OF assms(3,4), of ?w1]
  obtain model2 i w2 where r: "validate_render_uv h model ?w1 = Inr (model2, i, w2)"
    and p2: "obj_name model2 = obj_name model" "material_slots model2 = material_slots model"
      "active_material_index model2 = active_material_index model"
      "uv_layers model2 \<noteq> []" "materials w2 = materials ?w1" "errors w2 = errors ?w1"
    by blast
  from validate_active_uv_ok [OF p2(4), of h i w2]
  obtain model3 w3 where a: "validate_active_uv h model2 i w2 = Inr (model3, w3)"
    and p3: "obj_name model3 = obj_name model2" "material_slots model3 = material_slots model2"
      "active_material_index model3 = active_material_index model2"
      "materials w3 = materials w2" "errors w3 = errors w2"
    by blast
  have "validateRequirements h w = validate_material model3 w3"
    using assms(1,2,3) r a by (simp add: validateRequirements_def Let_def)
  moreover have "obj_active_material w3 model3 = obj_active_material w model"
    using p2 p3 m1 by (intro obj_active_material_cong) simp_all
  ultimately show ?thesis using p2 p3 e1 by auto
qed

text \<open>
  C8: \<^verbatim>\<open>validateRequirements\<close> checks in the listed order and stops at the first check
  that fails with the cancelled status and the error of that check alone: no active
  object, active object not a mesh, no UV layers, no active material, nodes disabled, no
  Principled BSDF node.  With several Principled BSDF nodes the last one of the node list
  is returned and no error is reported.  The host is taken to accept the write of
  \<^verbatim>\<open>active_render\<close>, the one step between the checks that has a handler of its own.
\<close>

theorem validation_order:
  assumes host: "uv_set_active_render_exn h = None"
  shows
   "(context_active_object w = None \<longrightarrow>
       validateRequirements h w = (Cancelled, report ERROR ''No active object selected.'' w)) \<and>
    (context_active_object w = Some model \<and> obj_type model \<noteq> ''MESH'' \<longrightarrow>
       validateRequirements h w =
         (Cancelled, report ERROR (''Active object '' @ quoted (obj_name model) @
                                   '' is not a Mesh.'') w)) \<and>
    (context_active_object w = Some model \<and> obj_type model = ''MESH'' \<and>
     uv_layers model = [] \<longrightarrow>
       fst (validateRequirements h w) = Cancelled \<and>
       errors (snd (validateRequirements h w)) =
         errors w @ [''Model '' @ quoted (obj_name model) @ '' has no UV maps.'']) \<and>
    (context_active_object w = Some model \<and> obj_type model = ''MESH'' \<and>
     uv_layers model \<noteq> [] \<and> obj_active_material w model = None \<longrightarrow>
       fst (validateRequirements h w) = Cancelled \<and>
       errors (snd (validateRequirements h w)) =
         errors w @ [''Model '' @ quoted (obj_name model) @ '' has no active material.'']) \<and>
    (context_active_object w = Some model \<and> obj_type model = ''MESH'' \<and>
     uv_layers model \<noteq> [] \<and> obj_active_material w model = Some mat \<and>
     \<not> use_nodes mat \<longrightarrow>
       fst (validateRequirements h w) = Cancelled \<and>
       errors (snd (validateRequirements h w)) =
         errors w @ [''Active material '' @ quoted (mat_name mat) @ '' on '' @
                     quoted (obj_name model) @ '' must have nodes enabled.'']) \<and>
    (context_active_object w = Some model \<and> obj_type model = ''MESH'' \<and>
     uv_layers model \<noteq> [] \<and> obj_active_material w model = Some mat \<and>
     use_nodes mat \<and>
     filter (\<lambda>nd. nd_type nd = ''BSDF_PRINCIPLED'') (mat_nodes mat) = [] \<longrightarrow>
       fst (validateRequirements h w) = Cancelled \<and>
       errors (snd (validateRequirements h w)) =
         errors w @ [''Active material '' @ quoted (mat_name mat) @
                     '' must contain a Principled BSDF node.'']) \<and>
    (context_active_object w = Some model \<and> obj_type model = ''MESH'' \<and>
     uv_layers model \<noteq> [] \<and> obj_active_material w model = Some mat \<and>
     use_nodes mat \<and>
     filter (\<lambda>nd. nd_type nd = ''BSDF_PRINCIPLED'') (mat_nodes mat) \<noteq> [] \<longrightarrow>
       fst (validateRequirements h w) =
         Validated (obj_name model) (mat_name mat)
           (nd_name (last (filter (\<lambda>nd. nd_type nd = ''BSDF_PRINCIPLED'') (mat_nodes mat)))) \<and>
       errors (snd (validateRequirements h w)) = errors w)"
proof -
  have reach: "\<exists>model' w'. validateRequirements h w = validate_material model' w' \<and>
           obj_name model' = obj_name model \<and>
           obj_active_material w' model' = obj_active_material w model \<and>
           errors w' = errors w"
    if "context_active_object w = Some model" "obj_type model = ''MESH''" "uv_layers model \<noteq> []"
    using validate_reaches_material [OF that host] .
  have c1: "context_active_object w = None \<longrightarrow>
       validateRequirements h w = (Cancelled, report ERROR ''No active object selected.'' w)"
    by (simp add: validateRequirements_def)
  have c2: "context_active_object w = Some model \<and> obj_type model \<noteq> ''MESH'' \<longrightarrow>
       validateRequirements h w =
         (Cancelled, report ERROR (''Active object '' @ quoted (obj_name model) @
                                   '' is not a Mesh.'') w)"
    by (simp add: validateRequirements_def)
  have c3: "context_active_object w = Some model \<and> obj_type model = ''MESH'' \<and>
     uv_layers model = [] \<longrightarrow>
       fst (validateRequirements h w) = Cancelled \<and>
       errors (snd (validateRequirements h w)) =
         errors w @ [''Model '' @ quoted (obj_name model) @ '' has no UV maps.'']"
    by (simp add: validateRequirements_def Let_def)
  have c4: "context_active_object w = Some model \<and> obj_type model = ''MESH'' \<and>
     uv_layers model \<noteq> [] \<and> obj_active_material w model = None \<longrightarrow>
       fst (validateRequirements h w) = Cancelled \<and>
       errors (snd (validateRequirements h w)) =
         errors w @ [''Model '' @ quoted (obj_name model) @ '' has no active material.'']"
    using reach by (auto simp: validate_material_def)
  have c5: "context_active_object w = Some model \<and> obj_type model = ''MESH'' \<and>
     uv_layers model \<noteq> [] \<and> obj_active_material w model = Some mat \<and>
     \<not> use_nodes mat \<longrightarrow>
       fst (validateRequirements h w) = Cancelled \<and>
       errors (snd (validateRequirements h w)) =
         errors w @ [''Active material '' @ quoted (mat_name mat) @ '' on '' @
                     quoted (obj_name model) @ '' must have nodes enabled.'']"
    using reach by (auto simp: validate_material_def)
  have c6: "context_active_object w = Some model \<and> obj_type model = ''MESH'' \<and>
     uv_layers model \<noteq> [] \<and> obj_active_material w model = Some mat \<and>
     use_nodes mat \<and>
     filter (\<lambda>nd. nd_type nd = ''BSDF_PRINCIPLED'') (mat_nodes mat) = [] \<longrightarrow>
       fst (validateRequirements h w) = Cancelled \<and>
       errors (snd (validateRequirements h w)) =
         errors w @ [''Active material '' @ quoted (mat_name mat) @
                     '' must contain a Principled BSDF node.'']"
    using reach by (auto simp: validate_material_def scan_principled_last)
  have c7: "context_active_object w = Some model \<and> obj_type model = ''MESH'' \<and>
     uv_layers model \<noteq> [] \<and> obj_active_material w model = Some mat \<and>
     use_nodes mat \<and>
     filter (\<lambda>nd. nd_type nd = ''BSDF_PRINCIPLED'') (mat_nodes mat) \<noteq> [] \<longrightarrow>
       fst (validateRequirements h w) =
         Validated (obj_name model) (mat_name mat)
           (nd_name (last (filter (\<lambda>nd. nd_type nd = ''BSDF_PRINCIPLED'') (mat_nodes mat)))) \<and>
       errors (snd (validateRequirements h w)) = errors w"
    using reach by (auto simp: validate_material_def scan_principled_last)
  from c1 c2 c3 c4 c5 c6 c7 show ?thesis by blast
qed

lemma objects_get_name: "objects_get w n = Some ob \<Longrightarrow> obj_name ob = n"
  unfolding objects_get_def by (induction "objects w" arbitrary: w) (auto dest: find_Some_iff [THEN iffD1])

lemma find_map_put:
  "find (\<lambda>x. obj_name x = n) xs = Some ob \<Longrightarrow> obj_name ob' = n \<Longrightarrow>
   find (\<lambda>x. obj_name x = n) (map (\<lambda>x. if obj_name x = n then ob' else x) xs) = Some ob'"
  by (induction xs) (auto split: if_splits)

lemma objects_get_put:
  "objects_get w n = Some ob \<Longrightarrow> obj_name ob' = n \<Longrightarrow>
   objects_get (objects_put ob' w) n = Some ob'"
  by (simp add: objects_get_def objects_put_def find_map_put)

lemma objects_get_report [simp]: "objects_get (report sev msg w) n = objects_get w n"
  by (simp add: objects_get_def report_def)

lemma warnings_report [simp]:
  "warnings (report sev msg w) = (if sev = WARNING then warnings w @ [msg] else warnings w)"
  by (simp add: warnings_def report_def)

lemma warnings_objects_put [simp]: "warnings (objects_put ob w) = warnings w"
  by (simp add: warnings_def objects_put_def)

lemma find_index_None: "find_index P xs = None \<longleftrightarrow> (\<forall>x\<in>set xs. \<not> P x)"
  by (induction xs) auto

text \<open>
  C9: for a mesh with at least one UV layer and none marked active for render,
  validation marks the first layer, reports a warning and no error, and goes on to the
  material checks; afterwards exactly one layer of the mesh is marked.  The host is taken
  to accept the write of \<^verbatim>\<open>active_render\<close>.
\<close>

theorem uv_promotion:
  assumes active: "context_active_object w = Some model"
      and mesh: "obj_type model = ''MESH''"
      and layers: "uv_layers model = first_layer # rest"
      and unmarked: "\<forall>l\<in>set (uv_layers model). \<not> active_render l"
      and host: "uv_set_active_render_exn h = None"
  shows "\<exists>model' w'.
           validateRequirements h w = validate_material model' w' \<and>
           objects_get w' (obj_name model) = Some model' \<and>
           uv_layers model' = first_layer\<lparr>active_render := True\<rparr> # rest \<and>
           length (filter active_render (uv_layers model')) = 1 \<and>
           warnings w' = warnings w @ selection_warning w @
                           [promotion_warning (obj_name model) (uv_name first_layer)] \<and>
           errors w' = errors w"
proof -
  define w1 where "w1 = (if length (selected_objects w) > 1
              then report WARNING
                ''More than one object selected. Baking only the active object.'' w
              else w)"
  define m2 where "m2 = model\<lparr>uv_layers := first_layer\<lparr>active_render := True\<rparr> # rest\<rparr>"
  define w2 where "w2 = report WARNING (promotion_warning (obj_name model) (uv_name first_layer))
               (objects_put m2 w1)"
  from active obtain n where n: "active_object w = Some n" "objects_get w n = Some model"
    by (auto simp: context_active_object_def split: option.splits)
  then have name: "obj_name model = n" by (simp add: objects_get_name)
  have name2: "obj_name m2 = n" using name by (simp add: m2_def)
  have get1: "objects_get w1 n = Some model" using n by (simp add: w1_def)
  have none: "find_index active_render (uv_layers model) = None"
    using unmarked by (simp add: find_index_None)
  have r: "validate_render_uv h model w1 = Inr (m2, 0, w2)"
    using none layers host by (simp add: validate_render_uv_def Let_def m2_def w2_def)
  have get2: "objects_get w2 n = Some m2"
    using objects_get_put [OF get1 name2] by (simp add: w2_def)
  have lay: "uv_layers m2 = first_layer\<lparr>active_render := True\<rparr> # rest"
    by (simp add: m2_def)
  have cnt: "length (filter active_render (first_layer\<lparr>active_render := True\<rparr> # rest)) = 1"
    using unmarked layers by (simp add: filter_empty_conv)
  have w2w: "warnings w2 = warnings w @ selection_warning w @
               [promotion_warning (obj_name model) (uv_name first_layer)]"
    by (simp add: selection_warning_def w2_def w1_def)
  have w2e: "errors w2 = errors w" by (simp add: w2_def w1_def)
  have start: "validateRequirements h w =
      (case validate_active_uv h m2 0 w2 of
         Inl w3 \<Rightarrow> (Cancelled, w3)
       | Inr (model3, w3) \<Rightarrow> validate_material model3 w3)"
    using active mesh layers r unfolding w1_def
    by (simp add: validateRequirements_def Let_def)
  show ?thesis
  proof (cases "uv_active m2 = None")
    case False
    then obtain y where "uv_active m2 = Some y" by auto
    then have "validate_active_uv h m2 0 w2 = Inr (m2, w2)"
      by (simp add: validate_active_uv_def)
    with start have "validateRequirements h w = validate_material m2 w2" by simp
    with get2 cnt w2w w2e name lay show ?thesis
      by (intro exI [of _ m2] exI [of _ w2]) simp
  next
    case True
    define m3 where "m3 = m2\<lparr>uv_active := Some 0\<rparr>"
    define w3 where "w3 = objects_put m3 w2"
    have ne: "uv_layers m2 \<noteq> []" by (simp add: lay)
    have "validate_active_uv h m2 0 w2 = Inr (m3, w3)"
      using True ne by (simp add: validate_active_uv_def Let_def m3_def w3_def split: option.splits)
    with start have v: "validateRequirements h w = validate_material m3 w3" by simp
    have name3: "obj_name m3 = n" using name2 by (simp add: m3_def)
    have get3: "objects_get w3 n = Some m3"
      using objects_get_put [OF get2 name3] by (simp add: w3_def)
    have lay3: "uv_layers m3 = first_layer\<lparr>active_render := True\<rparr> # rest"
      by (simp add: m3_def lay)
    have "warnings w3 = warnings w2" "errors w3 = errors w2" by (simp_all add: w3_def)
    with v get3 cnt w2w w2e name lay3 show ?thesis
      by (intro exI [of _ m3] exI [of _ w3]) simp
  qed
qed

theorem uv_promotion_witness:
  "\<exists>model' w'.
     validateRequirements studio scene = validate_material model' w' \<and>
     objects_get w' ''Cube'' = Some model' \<and>
     uv_layers model' = [\<lparr>uv_name = ''UVMap'', active_render = True\<rparr>] \<and>
     length (filter active_render (uv_layers model')) = 1 \<and>
     warnings w' = [''More than one object selected. Baking only the active object.'',
                    promotion_warning ''Cube'' ''UVMap''] \<and>
     errors w' = []"
proof -
  have active: "context_active_object scene = Some cube"
    by (simp add: context_active_object_def objects_get_def scene_def cube_def)
  have mesh: "obj_type cube = ''MESH''" by (simp add: cube_def)
  have layers: "uv_layers cube = \<lparr>uv_name = ''UVMap'', active_render = False\<rparr> # []"
    by (simp add: cube_def)
  have unmarked: "\<forall>l\<in>set (uv_layers cube). \<not> active_render l" by (simp add: cube_def)
  have host: "uv_set_active_render_exn studio = None" by (simp add: studio_def)
  have sel: "selection_warning scene =
               [''More than one object selected. Baking only the active object.'']"
    by (simp add: selection_warning_def selected_objects_def scene_def cube_def lamp_def)
  have nm: "obj_name cube = ''Cube''" by (simp add: cube_def)
  have w0: "warnings scene = []" "errors scene = []"
    by (simp_all add: warnings_def errors_def scene_def)
  from uv_promotion [OF active mesh layers unmarked host] sel nm w0
  show ?thesis by simp
qed

theorem validation_order_witness:
  "validateRequirements studio (scene\<lparr>active_object := None\<rparr>) =
     (Cancelled, report ERROR ''No active object selected.'' (scene\<lparr>active_object := None\<rparr>)) \<and>
   fst (validateRequirements studio (scene\<lparr>active_object := Some ''Light''\<rparr>)) = Cancelled \<and>
   fst (validateRequirements studio (scene\<lparr>objects := [cube\<lparr>uv_layers := []\<rparr>, lamp]\<rparr>)) = Cancelled \<and>
   errors (snd (validateRequirements studio (scene\<lparr>objects := [cube\<lparr>uv_layers := []\<rparr>, lamp]\<rparr>))) =
     [''Model '' @ quoted ''Cube'' @ '' has no UV maps.''] \<and>
   errors (snd (validateRequirements studio (scene\<lparr>objects := [cube\<lparr>material_slots := []\<rparr>, lamp]\<rparr>))) =
     [''Model '' @ quoted ''Cube'' @ '' has no active material.''] \<and>
   errors (snd (validateRequirements studio
       (scene\<lparr>materials := [cube_material\<lparr>use_nodes := False\<rparr>]\<rparr>))) =
     [''Active material '' @ quoted ''Material'' @ '' on '' @ quoted ''Cube'' @
      '' must have nodes enabled.''] \<and>
   errors (snd (validateRequirements studio
       (scene\<lparr>materials := [cube_material\<lparr>mat_nodes := [output_node]\<rparr>]\<rparr>))) =
     [''Active material '' @ quoted ''Material'' @ '' must contain a Principled BSDF node.''] \<and>
   fst (validateRequirements studio
       (scene\<lparr>materials := [cube_material\<lparr>mat_nodes :=
          [principled, output_node, principled\<lparr>nd_name := ''Principled BSDF.001''\<rparr>]\<rparr>]\<rparr>)) =
     Validated ''Cube'' ''Material'' ''Principled BSDF.001''"
proof -
  have host: "uv_set_active_render_exn studio = None" by (simp add: studio_def)
  note defs = context_active_object_def objects_get_def obj_active_material_def
    active_material_name_def materials_get_def errors_def
    scene_def cube_def lamp_def cube_material_def principled_def output_node_def
  show ?thesis
    using validation_order [OF host, of "scene\<lparr>active_object := None\<rparr>"]
      validation_order [OF host, of "scene\<lparr>active_object := Some ''Light''\<rparr>" lamp]
      validation_order [OF host, of "scene\<lparr>objects := [cube\<lparr>uv_layers := []\<rparr>, lamp]\<rparr>"
        "cube\<lparr>uv_layers := []\<rparr>"]
      validation_order [OF host, of "scene\<lparr>objects := [cube\<lparr>material_slots := []\<rparr>, lamp]\<rparr>"
        "cube\<lparr>material_slots := []\<rparr>"]
      validation_order [OF host, of "scene\<lparr>materials := [cube_material\<lparr>use_nodes := False\<rparr>]\<rparr>"
        cube "cube_material\<lparr>use_nodes := False\<rparr>"]
      validation_order [OF host, of "scene\<lparr>materials := [cube_material\<lparr>mat_nodes := [output_node]\<rparr>]\<rparr>"
        cube "cube_material\<lparr>mat_nodes := [output_node]\<rparr>"]
      validation_order [OF host, of "scene\<lparr>materials := [cube_material\<lparr>mat_nodes :=
          [principled, output_node, principled\<lparr>nd_name := ''Principled BSDF.001''\<rparr>]\<rparr>]\<rparr>"
        cube "cube_material\<lparr>mat_nodes :=
          [principled, output_node, principled\<lparr>nd_name := ''Principled BSDF.001''\<rparr>]\<rparr>"]
    by (simp add: defs)
qed

section \<open>What the bake phase leaves alone\<close>

lemma settings_frame_refl [simp]: "settings_frame w w"
  by (simp add: settings_frame_def)

lemma settings_frame_trans: "settings_frame w w1 \<Longrightarrow> settings_frame w1 w2 \<Longrightarrow> settings_frame w w2"
  by (simp add: settings_frame_def)

lemma frame_report [simp]: "settings_frame w (report sev msg w)"
  by (simp add: settings_frame_def report_def)

lemma frame_images_put [simp]: "settings_frame w (images_put img w)"
  by (simp add: settings_frame_def images_put_def)

lemma frame_images_remove [simp]: "settings_frame w (images_remove n w)"
  by (simp add: settings_frame_def images_remove_def)

lemma frame_materials_put [simp]: "settings_frame w (materials_put m w)"
  by (simp add: settings_frame_def materials_put_def)

lemma frame_create_image: "settings_frame w (snd (create_image n sz mt w))"
  by (simp add: settings_frame_def create_image_def images_new_def images_put_def Let_def)

lemma frame_ensure_non_color [simp]: "settings_frame w (ensure_non_color n w)"
  by (simp add: ensure_non_color_def split: option.splits)

lemma frame_ensure_float [simp]: "settings_frame w (ensure_float n w)"
  by (simp add: ensure_float_def split: option.splits)

lemma frame_object_bake: "settings_frame w (snd (object_bake h t w))"
  by (simp add: object_bake_def settings_frame_def images_put_def Let_def
           split: option.splits sum.splits)

lemma frame_finally_remove_node [simp]: "settings_frame w (finally_remove_node m w)"
  by (simp add: finally_remove_node_def split: option.splits)

lemma frame_bake_via_node:
  assumes "\<And>w. settings_frame w (checks w)" and "\<And>w. settings_frame w (settings w)"
  shows "settings_frame w (snd (bake_via_node h i m checks settings t w))"
proof (cases "materials_get w m")
  case None
  then show ?thesis by (simp add: bake_via_node_def)
next
  case (Some mat)
  obtain nd m1 where a: "add_bake_image_node mat i = (nd, m1)" by (cases "add_bake_image_node mat i")
  let ?w2 = "settings (materials_put m1 (checks w))"
  obtain r w3 where b: "object_bake h t ?w2 = (r, w3)" by (cases "object_bake h t ?w2")
  have "settings_frame w (checks w)" by (rule assms(1))
  moreover have "settings_frame (checks w) (materials_put m1 (checks w))" by simp
  moreover have "settings_frame (materials_put m1 (checks w)) ?w2" by (rule assms(2))
  moreover have "settings_frame ?w2 w3" using frame_object_bake [of ?w2 h t] b by simp
  moreover have "settings_frame w3 (finally_remove_node m w3)" by simp
  ultimately have "settings_frame w (finally_remove_node m w3)"
    by (blast intro: settings_frame_trans)
  with Some a b show ?thesis by (simp add: bake_via_node_def Let_def)
qed

lemma frame_checks_normal: "settings_frame w (ensure_float i (ensure_non_color i w))"
  by (rule settings_frame_trans [OF frame_ensure_non_color frame_ensure_float])

lemma frame_bake_diffuse: "settings_frame w (snd (bake_diffuse h i mt m w))"
  unfolding bake_diffuse_def by (rule frame_bake_via_node) (simp_all add: settings_frame_def)

lemma frame_bake_roughness: "settings_frame w (snd (bake_roughness h i mt m w))"
  unfolding bake_roughness_def by (rule frame_bake_via_node) simp_all

lemma frame_bake_ao: "settings_frame w (snd (bake_ao h i mt m w))"
  unfolding bake_ao_def by (rule frame_bake_via_node) simp_all

lemma frame_bake_normal: "settings_frame w (snd (bake_normal h i mt m w))"
  unfolding bake_normal_def
  by (rule frame_bake_via_node) (simp_all add: frame_checks_normal, simp add: settings_frame_def)

lemma names_report [simp]: "image_names (report sev msg w) = image_names w"
  by (simp add: image_names_def report_def)

lemma names_images_put:
  "img_name img = n \<Longrightarrow> image_names (images_put img w) = image_names w"
  by (simp add: image_names_def images_put_def)

lemma names_materials_put [simp]: "image_names (materials_put m w) = image_names w"
  by (simp add: image_names_def materials_put_def)

lemma images_get_name: "images_get w n = Some img \<Longrightarrow> img_name img = n"
  by (auto simp: images_get_def dest: find_Some_iff [THEN iffD1])

lemma names_ensure_non_color [simp]: "image_names (ensure_non_color n w) = image_names w"
  by (simp add: ensure_non_color_def names_images_put split: option.splits)

lemma names_ensure_float [simp]: "image_names (ensure_float n w) = image_names w"
  by (simp add: ensure_float_def names_images_put split: option.splits)

lemma names_object_bake: "image_names (snd (object_bake h t w)) = image_names w"
proof -
  have "image_names (w\<lparr>bake_log := bake_log w @ [t]\<rparr>) = image_names w"
    by (simp add: image_names_def)
  then show ?thesis
    by (simp add: object_bake_def Let_def names_images_put split: option.splits sum.splits)
qed

lemma names_finally_remove_node [simp]: "image_names (finally_remove_node m w) = image_names w"
  by (simp add: finally_remove_node_def split: option.splits)

lemma names_bake_via_node:
  assumes "\<And>w. image_names (checks w) = image_names w"
      and "\<And>w. image_names (settings w) = image_names w"
  shows "image_names (snd (bake_via_node h i m checks settings t w)) = image_names w"
proof (cases "materials_get w m")
  case None
  then show ?thesis by (simp add: bake_via_node_def)
next
  case (Some mat)
  obtain nd m1 where a: "add_bake_image_node mat i = (nd, m1)" by (cases "add_bake_image_node mat i")
  let ?w2 = "settings (materials_put m1 (checks w))"
  obtain r w3 where b: "object_bake h t ?w2 = (r, w3)" by (cases "object_bake h t ?w2")
  have "image_names ?w2 = image_names w" by (simp add: assms)
  moreover have "image_names w3 = image_names ?w2" using names_object_bake [of h t ?w2] b by simp
  ultimately have "image_names (finally_remove_node m w3) = image_names w" by simp
  with Some a b show ?thesis by (simp add: bake_via_node_def Let_def)
qed

lemma method_ok_bake_diffuse: "method_ok bake_diffuse"
  unfolding method_ok_def
proof (intro allI conjI)
  fix h i mt m w
  show "settings_frame w (snd (bake_diffuse h i mt m w))" by (rule frame_bake_diffuse)
  show "image_names (snd (bake_diffuse h i mt m w)) = image_names w"
    unfolding bake_diffuse_def
    by (rule names_bake_via_node) (simp, simp add: image_names_def)
qed

lemma method_ok_bake_roughness: "method_ok bake_roughness"
  unfolding method_ok_def
proof (intro allI conjI)
  fix h i mt m w
  show "settings_frame w (snd (bake_roughness h i mt m w))" by (rule frame_bake_roughness)
  show "image_names (snd (bake_roughness h i mt m w)) = image_names w"
    unfolding bake_roughness_def by (rule names_bake_via_node) simp_all
qed

lemma method_ok_bake_normal: "method_ok bake_normal"
  unfolding method_ok_def
proof (intro allI conjI)
  fix h i mt m w
  show "settings_frame w (snd (bake_normal h i mt m w))" by (rule frame_bake_normal)
  show "image_names (snd (bake_normal h i mt m w)) = image_names w"
    unfolding bake_normal_def
    by (rule names_bake_via_node) (simp, simp add: image_names_def)
qed

lemma method_ok_bake_ao: "method_ok bake_ao"
  unfolding method_ok_def
proof (intro allI conjI)
  fix h i mt m w
  show "settings_frame w (snd (bake_ao h i mt m w))" by (rule frame_bake_ao)
  show "image_names (snd (bake_ao h i mt m w)) = image_names w"
    unfolding bake_ao_def by (rule names_bake_via_node) simp_all
qed

lemma map_types_ok: "\<forall>(mt, b, m)\<in>set (map_types p). method_ok m"
  by (simp add: map_types_def method_ok_bake_diffuse method_ok_bake_roughness
        method_ok_bake_normal method_ok_bake_ao)

section \<open>The bake loop\<close>

lemma unique_name_free: "n \<notin> set used \<Longrightarrow> unique_name used n = n"
  by (simp add: unique_name_def)

lemma names_images_remove: "image_names (images_remove n w) = filter (\<lambda>x. x \<noteq> n) (image_names w)"
  by (simp add: image_names_def images_remove_def filter_map comp_def)

lemma create_image_fresh:
  assumes "n \<notin> set (image_names w)"
  shows "img_name (fst (create_image n sz mt w)) = n"
    and "image_names (snd (create_image n sz mt w)) = image_names w @ [n]"
proof -
  show "img_name (fst (create_image n sz mt w)) = n"
    using assms by (simp add: create_image_def images_new_def Let_def unique_name_free)
  have "\<And>img xs. img_name img = n \<Longrightarrow>
          map img_name (map (\<lambda>i. if img_name i = n then img else i) xs) = map img_name xs"
    by simp
  then show "image_names (snd (create_image n sz mt w)) = image_names w @ [n]"
    using assms
    by (simp add: create_image_def images_new_def images_put_def Let_def unique_name_free
          image_names_def)
qed

lemma create_image_on_frame: "settings_frame w (snd (create_image_on h n sz mt w))"
  by (simp add: create_image_on_def create_image_partial_def create_image_def images_new_def
        images_put_def settings_frame_def Let_def split: option.splits)

lemma create_image_on_fresh:
  assumes "n \<notin> set (image_names w)"
  shows "image_names (snd (create_image_on h n sz mt w)) = image_names w @ [n]"
    and "fst (create_image_on h n sz mt w) = Inr img \<Longrightarrow> img_name img = n"
proof -
  have partial: "image_names (create_image_partial n sz mt w) = image_names w @ [n]"
    using assms
    by (simp add: create_image_partial_def images_new_def images_put_def Let_def unique_name_free
          image_names_def)
  with create_image_fresh(2) [OF assms, of sz mt]
  show "image_names (snd (create_image_on h n sz mt w)) = image_names w @ [n]"
    by (auto simp: create_image_on_def split: option.splits prod.splits)
  from create_image_fresh(1) [OF assms, of sz mt]
  show "fst (create_image_on h n sz mt w) = Inr img \<Longrightarrow> img_name img = n"
    by (auto simp: create_image_on_def split: option.splits prod.splits)
qed

lemma frame_check_normal_solid: "settings_frame w (snd (check_normal_solid h mt n w))"
  by (simp add: check_normal_solid_def split: option.splits)

lemma names_check_normal_solid: "image_names (snd (check_normal_solid h mt n w)) = image_names w"
  by (simp add: check_normal_solid_def split: option.splits)

lemma log_check_normal_solid: "bake_log (snd (check_normal_solid h mt n w)) = bake_log w"
  by (simp add: check_normal_solid_def report_def split: option.splits)

lemma bake_map_body_facts:
  assumes ok: "method_ok bake_method"
      and body: "bake_map_body h p model_name material_name map_type bake_method baked w =
                   (r, image_opt, baked2, w2)"
  shows "settings_frame w w2"
    and "baked2 = baked \<or> baked2 = baked @ [model_name @ ''_'' @ map_type]"
    and "image_opt \<noteq> None \<Longrightarrow>
           image_opt = Some (model_name @ ''_'' @ map_type) \<and>
           baked2 = baked @ [model_name @ ''_'' @ map_type] \<and>
           model_name @ ''_'' @ map_type \<in> set (image_names w2)"
    and "image_opt = None \<Longrightarrow> baked2 = baked \<and> r \<noteq> None"
    and "model_name @ ''_'' @ map_type \<in> set (image_names w2)"
proof -
  let ?n = "model_name @ ''_'' @ map_type"
  define w1 where "w1 = (if ?n \<in> set (image_names w) then images_remove ?n w else w)"
  have fresh: "?n \<notin> set (image_names w1)" by (simp add: w1_def names_images_remove)
  have f1: "settings_frame w w1" by (simp add: w1_def)
  obtain ci w2' where c: "create_image_on h ?n (texture_size p) map_type w1 = (ci, w2')"
    by (cases "create_image_on h ?n (texture_size p) map_type w1")
  from create_image_on_fresh(1) [OF fresh, of h "texture_size p" map_type] c
  have names2: "image_names w2' = image_names w1 @ [?n]" by simp
  have f2: "settings_frame w1 w2'"
    using create_image_on_frame [of w1 h ?n "texture_size p" map_type] c by simp
  have body': "(case create_image_on h ?n (texture_size p) map_type w1 of
        (Inl e, w2) \<Rightarrow> (Some e, None, baked, w2)
      | (Inr img, w2) \<Rightarrow>
          (case bake_method h (img_name img) map_type material_name w2 of
             (Some e, w3) \<Rightarrow> (Some e, Some (img_name img), baked @ [img_name img], w3)
           | (None, w3) \<Rightarrow>
               (case check_normal_solid h map_type (img_name img) w3 of
                  (r, w4) \<Rightarrow> (r, Some (img_name img), baked @ [img_name img], w4)))) =
      (r, image_opt, baked2, w2)"
    using body unfolding bake_map_body_def Let_def w1_def .
  have all: "settings_frame w w2 \<and>
      (image_opt = None \<and> baked2 = baked \<and> r \<noteq> None \<or>
       image_opt = Some ?n \<and> baked2 = baked @ [?n]) \<and>
      ?n \<in> set (image_names w2)"
  proof (cases ci)
    case (Inl e)
    with body' c have "(r, image_opt, baked2, w2) = (Some e, None, baked, w2')" by simp
    with f1 f2 names2 show ?thesis by (auto intro: settings_frame_trans)
  next
    case (Inr img)
    with create_image_on_fresh(2) [OF fresh, of h "texture_size p" map_type img] c
    have nm: "img_name img = ?n" by simp
    obtain r3 w3 where b: "bake_method h ?n map_type material_name w2' = (r3, w3)"
      by (cases "bake_method h ?n map_type material_name w2'")
    from ok b have f3: "settings_frame w2' w3" and names3: "image_names w3 = image_names w2'"
      unfolding method_ok_def by (metis snd_conv)+
    obtain r4 w4 where k: "check_normal_solid h map_type ?n w3 = (r4, w4)"
      by (cases "check_normal_solid h map_type ?n w3")
    have f4: "settings_frame w3 w4"
      using frame_check_normal_solid [of w3 h map_type ?n] k by simp
    have names4: "image_names w4 = image_names w3"
      using names_check_normal_solid [of h map_type ?n w3] k by simp
    have res: "(r, image_opt, baked2, w2) =
        (case r3 of Some e \<Rightarrow> (Some e, Some ?n, baked @ [?n], w3)
         | None \<Rightarrow> (r4, Some ?n, baked @ [?n], w4))"
      using body' unfolding c Inr sum.case prod.case nm b k by (simp split: option.splits)
    have w2: "w2 = w3 \<or> w2 = w4" and io: "image_opt = Some ?n" "baked2 = baked @ [?n]"
      using res by (auto split: option.splits)
    have "settings_frame w w3" using f1 f2 f3 by (blast intro: settings_frame_trans)
    moreover then have "settings_frame w w4" using f4 by (rule settings_frame_trans)
    moreover have "?n \<in> set (image_names w3)" "?n \<in> set (image_names w4)"
      using names2 names3 names4 by simp_all
    ultimately show ?thesis using w2 io by auto
  qed
  from all show "settings_frame w w2" by simp
  from all show "baked2 = baked \<or> baked2 = baked @ [?n]" by auto
  from all show "image_opt \<noteq> None \<Longrightarrow>
      image_opt = Some ?n \<and> baked2 = baked @ [?n] \<and> ?n \<in> set (image_names w2)" by auto
  from all show "image_opt = None \<Longrightarrow> baked2 = baked \<and> r \<noteq> None" by auto
  from all show "?n \<in> set (image_names w2)" by simp
qed

lemma bake_map_failed_facts:
  assumes "n \<in> set (image_names w)" and "n \<notin> set baked"
  shows "bake_map_failed e mt (Some n) (baked @ [n]) w =
           (baked, images_remove n (report ERROR (''Failed during '' @ mt @ '' bake: '' @ str_exn e) w))"
  using assms by (simp add: bake_map_failed_def Let_def remove1_append)

lemma bake_maps_append:
  "bake_maps h p mo ma (pre @ rest) baked w =
     (case bake_maps h p mo ma pre baked w of
        (True, baked1, w1) \<Rightarrow> bake_maps h p mo ma rest baked1 w1
      | (False, baked1, w1) \<Rightarrow> (False, baked1, w1))"
proof (induction pre arbitrary: baked w)
  case Nil
  then show ?case by simp
next
  case (Cons a pre)
  obtain mt b m where a: "a = (mt, b, m)" by (cases a)
  show ?case unfolding a by (simp add: Cons.IH split: prod.splits option.splits)
qed

lemma bake_map_failed_sub:
  "set (fst (bake_map_failed e mt io baked w)) \<subseteq> set baked"
  using set_remove1_subset [of _ baked]
  by (auto simp: bake_map_failed_def Let_def split: option.splits)

lemma bake_map_failed_frame:
  "settings_frame w (snd (bake_map_failed e mt io baked w))"
  by (auto simp: bake_map_failed_def Let_def settings_frame_def report_def images_remove_def
           split: option.splits)

lemma bake_maps_facts:
  assumes "\<forall>(mt, b, m)\<in>set ms. method_ok m"
      and "bake_maps h p mo ma ms baked w = (ok, baked', w')"
  shows "settings_frame w w' \<and>
         set baked' \<subseteq> set baked \<union> (\<lambda>(mt, b, m). mo @ ''_'' @ mt) ` set ms"
  using assms
proof (induction ms arbitrary: baked w)
  case Nil
  then show ?case by simp
next
  case (Cons a ms)
  obtain mt b m where a: "a = (mt, b, m)" by (cases a)
  from Cons.prems(1) a have mok: "method_ok m" and rest: "\<forall>(mt, b, m)\<in>set ms. method_ok m"
    by auto
  show ?case
  proof (cases b)
    case False
    with Cons.prems(2) a have "bake_maps h p mo ma ms baked w = (ok, baked', w')" by simp
    from Cons.IH [OF rest this] show ?thesis by auto
  next
    case True
    obtain r io b2 w2 where body: "bake_map_body h p mo ma mt m baked w = (r, io, b2, w2)"
      by (cases "bake_map_body h p mo ma mt m baked w") auto
    note bf = bake_map_body_facts [OF mok body]
    show ?thesis
    proof (cases r)
      case None
      with Cons.prems(2) a True body have "bake_maps h p mo ma ms b2 w2 = (ok, baked', w')"
        by simp
      from Cons.IH [OF rest this] bf a show ?thesis
        by (auto intro: settings_frame_trans)
    next
      case (Some e)
      obtain b3 w3 where hd: "bake_map_failed e mt io b2 w2 = (b3, w3)"
        by (cases "bake_map_failed e mt io b2 w2")
      with Some Cons.prems(2) a True body have res: "baked' = b3" "w' = w3" by simp_all
      from bake_map_failed_sub [of e mt io b2 w2] bake_map_failed_frame [of w2 e mt io b2] hd
      have "set b3 \<subseteq> set b2" "settings_frame w2 w3" by simp_all
      with res bf a show ?thesis
        by (auto intro: settings_frame_trans)
    qed
  qed
qed

lemma bake_failure_contained:
  assumes split: "map_types p = pre @ (map_type, True, bake_method) # post"
      and before: "bake_maps h p model_name material_name pre [] w = (True, baked1, w1)"
      and raised: "bake_map_body h p model_name material_name map_type bake_method baked1 w1 =
                     (Some e, image_opt, baked2, w2)"
  shows "\<exists>baked' w'.
           bake_and_save h p model_name material_name output_path w = (False, baked', w') \<and>
           bake_log w' = bake_log w2 \<and> files w' = files w \<and>
           model_name @ ''_'' @ map_type \<notin> set baked' \<and>
           (image_opt \<noteq> None \<longrightarrow> model_name @ ''_'' @ map_type \<notin> set (image_names w')) \<and>
           (image_opt = None \<longrightarrow> model_name @ ''_'' @ map_type \<in> set (image_names w'))"
proof -
  let ?n = "model_name @ ''_'' @ map_type"
  let ?wr = "report ERROR (''Failed during '' @ map_type @ '' bake: '' @ str_exn e) w2"
  from map_types_ok [of p] split
  have pre_ok: "\<forall>(mt, b, m)\<in>set pre. method_ok m" and mok: "method_ok bake_method"
    by auto
  have "distinct (map fst (map_types p))" by (simp add: map_types_def)
  with split have fresh_type: "map_type \<notin> fst ` set pre" by auto
  from bake_maps_facts [OF pre_ok before]
  have f1: "settings_frame w w1"
    and sub: "set baked1 \<subseteq> (\<lambda>(mt, b, m). model_name @ ''_'' @ mt) ` set pre" by auto
  have notin: "?n \<notin> set baked1"
  proof
    assume "?n \<in> set baked1"
    with sub obtain mt b m where "(mt, b, m) \<in> set pre" "?n = model_name @ ''_'' @ mt" by auto
    then have "map_type \<in> fst ` set pre" by force
    with fresh_type show False by contradiction
  qed
  note bf = bake_map_body_facts [OF mok raised]
  have fr: "settings_frame w ?wr"
    using f1 bf(1) frame_report [of w2] by (blast intro: settings_frame_trans)
  have stays: "?n \<in> set (image_names ?wr)" using bf(5) by simp
  show ?thesis
  proof (cases image_opt)
    case None
    with bf(4) have b2: "baked2 = baked1" by simp
    have handler: "bake_map_failed e map_type image_opt baked2 w2 = (baked1, ?wr)"
      using None b2 by (simp add: bake_map_failed_def Let_def)
    have loop: "bake_maps h p model_name material_name (map_types p) [] w = (False, baked1, ?wr)"
      unfolding split bake_maps_append using before raised handler by simp
    then have "bake_and_save h p model_name material_name output_path w = (False, baked1, ?wr)"
      by (simp add: bake_and_save_def)
    moreover have "bake_log ?wr = bake_log w2" by (simp add: report_def)
    moreover have "files ?wr = files w" using fr by (simp add: settings_frame_def)
    ultimately show ?thesis using notin None stays by blast
  next
    case (Some n)
    let ?w' = "images_remove ?n ?wr"
    from bf(3) Some have io: "image_opt = Some ?n" and b2: "baked2 = baked1 @ [?n]"
      and mem: "?n \<in> set (image_names w2)" by simp_all
    have handler: "bake_map_failed e map_type image_opt baked2 w2 = (baked1, ?w')"
      using bake_map_failed_facts [OF mem notin, of e map_type] io b2 by simp
    have loop: "bake_maps h p model_name material_name (map_types p) [] w = (False, baked1, ?w')"
      unfolding split bake_maps_append using before raised handler by simp
    then have "bake_and_save h p model_name material_name output_path w = (False, baked1, ?w')"
      by (simp add: bake_and_save_def)
    moreover have "bake_log ?w' = bake_log w2" by (simp add: report_def images_remove_def)
    moreover have "files ?w' = files w"
      using fr by (simp add: settings_frame_def images_remove_def)
    moreover have "?n \<notin> set (image_names ?w')" by (simp add: names_images_remove)
    ultimately show ?thesis using notin io by blast
  qed
qed

section \<open>Snapshot and restore\<close>

lemma selection_frame_refl [simp]: "selection_frame w w"
  by (simp add: selection_frame_def)

lemma selection_frame_trans:
  "selection_frame w w1 \<Longrightarrow> selection_frame w1 w2 \<Longrightarrow> selection_frame w w2"
  by (simp add: selection_frame_def)

lemma selection_frame_report [simp]: "selection_frame w (report sev msg w)"
  by (simp add: selection_frame_def report_def)

lemma selected_names_cong:
  "map obj_name xs = map obj_name ys \<Longrightarrow> map obj_select xs = map obj_select ys \<Longrightarrow>
   map obj_name (filter obj_select xs) = map obj_name (filter obj_select ys)"
proof (induction xs arbitrary: ys)
  case Nil
  then show ?case by simp
next
  case (Cons x xs)
  then obtain y ys' where "ys = y # ys'" by (cases ys) auto
  with Cons show ?case by auto
qed

lemma selected_objects_frame:
  assumes "selection_frame w w'"
  shows "selected_objects w' = selected_objects w"
  unfolding selected_objects_def
  using assms by (intro selected_names_cong) (simp_all add: selection_frame_def)

lemma put_keeps_selection:
  assumes d: "distinct (map obj_name (objects w))"
      and g: "objects_get w n = Some ob"
      and n: "obj_name ob' = n" and s: "obj_select ob' = obj_select ob"
  shows "selection_frame w (objects_put ob' w)"
proof -
  from g have mem: "ob \<in> set (objects w)" and nm: "obj_name ob = n"
    by (auto simp: objects_get_def dest: find_Some_iff [THEN iffD1] simp: in_set_conv_nth)
  from d have inj: "inj_on obj_name (set (objects w))" by (simp add: distinct_map)
  have "\<And>x. x \<in> set (objects w) \<Longrightarrow> obj_name x = n \<Longrightarrow> x = ob"
    using inj mem nm by (auto dest: inj_onD)
  then have "map obj_select (map (\<lambda>x. if obj_name x = n then ob' else x) (objects w)) =
             map obj_select (objects w)"
    using s by (auto simp: map_idI)
  moreover have "map obj_name (map (\<lambda>x. if obj_name x = n then ob' else x) (objects w)) =
             map obj_name (objects w)"
    using n by (auto simp: map_idI)
  ultimately show ?thesis using n by (simp add: selection_frame_def objects_put_def)
qed

lemma distinct_frame:
  "selection_frame w w' \<Longrightarrow> distinct (map obj_name (objects w)) \<Longrightarrow>
   distinct (map obj_name (objects w'))"
  by (simp add: selection_frame_def)

lemma validate_render_uv_selection:
  assumes "distinct (map obj_name (objects w))" and "objects_get w n = Some model"
  shows "case validate_render_uv h model w of
           Inl w' \<Rightarrow> selection_frame w w'
         | Inr (model', i, w') \<Rightarrow>
             selection_frame w w' \<and> objects_get w' n = Some model' \<and>
             obj_select model' = obj_select model"
proof -
  from assms(2) have nm: "obj_name model = n" by (rule objects_get_name)
  show ?thesis
  proof (cases "find_index active_render (uv_layers model)")
    case (Some i)
    with assms show ?thesis by (simp add: validate_render_uv_def)
  next
    case None
    show ?thesis
    proof (cases "uv_layers model")
      case Nil
      with None show ?thesis by (simp add: validate_render_uv_def)
    next
      case (Cons first_layer rest)
      show ?thesis
      proof (cases "uv_set_active_render_exn h")
        case (Some e)
        with None Cons show ?thesis by (simp add: validate_render_uv_def)
      next
        case N2: None
        let ?m = "model\<lparr>uv_layers := first_layer\<lparr>active_render := True\<rparr> # rest\<rparr>"
        have "selection_frame w (objects_put ?m w)"
          using put_keeps_selection [OF assms, of ?m] nm by simp
        moreover have "objects_get (objects_put ?m w) n = Some ?m"
          using objects_get_put [OF assms(2), of ?m] nm by simp
        ultimately show ?thesis using None Cons N2
          by (simp add: validate_render_uv_def Let_def selection_frame_def report_def
                objects_get_def)
      qed
    qed
  qed
qed

lemma validate_active_uv_selection:
  assumes "distinct (map obj_name (objects w))" and "objects_get w n = Some model"
  shows "case validate_active_uv h model i w of
           Inl w' \<Rightarrow> selection_frame w w'
         | Inr (model', w') \<Rightarrow> selection_frame w w'"
proof -
  from assms(2) have nm: "obj_name model = n" by (rule objects_get_name)
  have "selection_frame w (objects_put (model\<lparr>uv_active := Some k\<rparr>) w)" for k
    using put_keeps_selection [OF assms, of "model\<lparr>uv_active := Some k\<rparr>"] nm by simp
  then show ?thesis
    by (simp add: validate_active_uv_def Let_def split: option.splits)
qed

lemma validate_material_selection: "selection_frame w (snd (validate_material model w))"
  by (simp add: validate_material_def split: option.splits)

lemma validate_material_name:
  "fst (validate_material model w) = Validated m mt pn \<Longrightarrow> m = obj_name model"
  by (simp add: validate_material_def split: option.splits if_splits)

lemma validate_render_uv_name:
  "validate_render_uv h model w = Inr (model', i, w') \<Longrightarrow> obj_name model' = obj_name model"
  by (auto simp: validate_render_uv_def Let_def split: option.splits list.splits)

lemma validate_active_uv_name:
  "validate_active_uv h model i w = Inr (model', w') \<Longrightarrow> obj_name model' = obj_name model"
  by (auto simp: validate_active_uv_def Let_def split: option.splits if_splits)

lemma validate_names:
  assumes "fst (validateRequirements h w) = Validated m mt pn"
  shows "active_object w = Some m"
proof (cases "context_active_object w")
  case None
  with assms show ?thesis by (simp add: validateRequirements_def)
next
  case (Some model)
  then obtain n where n: "active_object w = Some n" "objects_get w n = Some model"
    by (auto simp: context_active_object_def split: option.splits)
  then have nm: "obj_name model = n" by (simp add: objects_get_name)
  from assms Some obtain w1 model2 i w2 model3 w3 where
    r: "validate_render_uv h model w1 = Inr (model2, i, w2)" and
    a: "validate_active_uv h model2 i w2 = Inr (model3, w3)" and
    v: "fst (validate_material model3 w3) = Validated m mt pn"
    by (auto simp: validateRequirements_def Let_def split: if_splits sum.splits prod.splits)
  from validate_material_name [OF v] validate_active_uv_name [OF a] validate_render_uv_name [OF r]
    nm n show ?thesis by simp
qed

lemma validate_selection:
  assumes d: "distinct (map obj_name (objects w))"
  shows "selection_frame w (snd (validateRequirements h w))"
proof (cases "context_active_object w")
    case None
    then show ?thesis by (simp add: validateRequirements_def)
  next
    case (Some model)
    then obtain n where n: "active_object w = Some n" "objects_get w n = Some model"
      by (auto simp: context_active_object_def split: option.splits)
    define w1 where "w1 = (if length (selected_objects w) > 1
                        then report WARNING
                          ''More than one object selected. Baking only the active object.'' w
                        else w)"
    have f1: "selection_frame w w1" by (simp add: w1_def)
    have d1: "distinct (map obj_name (objects w1))" using d by (simp add: w1_def report_def)
    have g1: "objects_get w1 n = Some model" using n by (simp add: w1_def)
    have start: "validateRequirements h w =
      (if obj_type model \<noteq> ''MESH'' then
         (Cancelled, report ERROR (''Active object '' @ quoted (obj_name model) @
                       '' is not a Mesh.'') w)
       else if uv_layers model = [] then
         (Cancelled, report ERROR (''Model '' @ quoted (obj_name model) @
                       '' has no UV maps.'') w1)
       else
         (case validate_render_uv h model w1 of
            Inl w2 \<Rightarrow> (Cancelled, w2)
          | Inr (model2, render_uv_layer, w2) \<Rightarrow>
              (case validate_active_uv h model2 render_uv_layer w2 of
                 Inl w3 \<Rightarrow> (Cancelled, w3)
               | Inr (model3, w3) \<Rightarrow> validate_material model3 w3)))"
      using Some unfolding w1_def by (simp add: validateRequirements_def Let_def)
    have early: "selection_frame w (report sev msg w1)" for sev msg
      using f1 selection_frame_report [of w1 sev msg] by (rule selection_frame_trans)
    show ?thesis
    proof (cases "obj_type model \<noteq> ''MESH'' \<or> uv_layers model = []")
      case True
      with start early show ?thesis by auto
    next
      case False
      with start have start: "validateRequirements h w =
         (case validate_render_uv h model w1 of
            Inl w2 \<Rightarrow> (Cancelled, w2)
          | Inr (model2, render_uv_layer, w2) \<Rightarrow>
              (case validate_active_uv h model2 render_uv_layer w2 of
                 Inl w3 \<Rightarrow> (Cancelled, w3)
               | Inr (model3, w3) \<Rightarrow> validate_material model3 w3))"
        by simp
    show ?thesis
    proof (cases "validate_render_uv h model w1")
      case (Inl w2)
      with validate_render_uv_selection [OF d1 g1, of h] f1 start show ?thesis
        by (auto intro: selection_frame_trans)
    next
      case (Inr t)
      then obtain model2 i w2 where r: "validate_render_uv h model w1 = Inr (model2, i, w2)"
        by (cases t) auto
      with validate_render_uv_selection [OF d1 g1, of h]
      have f2: "selection_frame w1 w2" and g2: "objects_get w2 n = Some model2" by simp_all
      have d2: "distinct (map obj_name (objects w2))" using distinct_frame [OF f2 d1] .
      have f12: "selection_frame w w2" using f1 f2 by (rule selection_frame_trans)
      show ?thesis
      proof (cases "validate_active_uv h model2 i w2")
        case (Inl w3)
        with validate_active_uv_selection [OF d2 g2, of h i] f12 start r show ?thesis
          by (auto intro: selection_frame_trans)
      next
        case (Inr u)
        then obtain model3 w3 where a: "validate_active_uv h model2 i w2 = Inr (model3, w3)"
          by (cases u) auto
        with validate_active_uv_selection [OF d2 g2, of h i]
        have f3: "selection_frame w2 w3" by simp
        have "selection_frame w3 (snd (validate_material model3 w3))"
          by (rule validate_material_selection)
        with f12 f3 have "selection_frame w (snd (validate_material model3 w3))"
          by (blast intro: selection_frame_trans)
        with start r a f1 show ?thesis by auto
      qed
    qed
  qed
qed

lemma names_objects_put:
  "map obj_name (objects (objects_put ob w)) = map obj_name (objects w)"
  by (simp add: objects_put_def)

lemma ensure_material_keeps:
  assumes "ensure_material m mt w = (r, w')"
  shows "map obj_name (objects w') = map obj_name (objects w) \<and>
         active_object w' = active_object w \<and> files w' = files w"
  using assms
  by (auto simp: ensure_material_def Let_def report_def objects_put_def
           split: option.splits sum.splits if_splits)

lemma select_all_deselect_keeps:
  assumes "select_all_deselect h w = (None, w')"
  shows "map obj_name (objects w') = map obj_name (objects w) \<and>
         active_object w' = active_object w \<and> files w' = files w \<and>
         engine w' = engine w \<and> samples w' = samples w \<and>
         use_selected_to_active w' = use_selected_to_active w \<and>
         objects w' = map (\<lambda>ob. ob\<lparr>obj_select := False\<rparr>) (objects w)"
  using assms by (auto simp: select_all_deselect_def split: option.splits)

lemma select_set_keeps:
  "map obj_name (objects (select_set n b w)) = map obj_name (objects w) \<and>
   active_object (select_set n b w) = active_object w \<and>
   files (select_set n b w) = files w"
  by (simp add: select_set_def comp_def if_distrib cong: if_cong)

lemma makedirs_keeps:
  assumes "makedirs h d w = (r, w')"
  shows "objects w' = objects w \<and> active_object w' = active_object w \<and> files w' = files w"
  using assms by (auto simp: makedirs_def split: option.splits)

lemma apply_settings_keeps:
  assumes "apply_settings h p m mt w = (Inr output_path, w2)"
  shows "map obj_name (objects w2) = map obj_name (objects w) \<and>
         active_object w2 = Some m \<and> files w2 = files w"
proof -
  let ?w3 = "w\<lparr>engine := ''CYCLES'', samples := 32, use_selected_to_active := False\<rparr>"
  from assms obtain w4 where s: "select_all_deselect h ?w3 = (None, w4)"
    by (auto simp: apply_settings_def Let_def split: prod.splits option.splits)
  note k4 = select_all_deselect_keeps [OF s]
  let ?w6 = "select_set m True (w4\<lparr>active_object := Some m\<rparr>)"
  have k6: "map obj_name (objects ?w6) = map obj_name (objects w)" "files ?w6 = files w"
    "active_object ?w6 = Some m"
    using k4 select_set_keeps [of m True "w4\<lparr>active_object := Some m\<rparr>"] by simp_all
  from assms s obtain w7 where
    m: "w7 = ?w6 \<or> (\<exists>d. makedirs h d ?w6 = (None, w7))"
    and e: "ensure_material m mt w7 = (None, w2)"
    by (auto simp: apply_settings_def Let_def split: prod.splits option.splits if_splits)
  from m makedirs_keeps have k7: "objects w7 = objects ?w6" "files w7 = files ?w6"
    "active_object w7 = active_object ?w6"
    by auto
  from ensure_material_keeps [OF e] k7 k6 show ?thesis by simp
qed

lemma scene_frame_refl [simp]: "scene_frame w w"
  by (simp add: scene_frame_def)

lemma scene_frame_trans: "scene_frame w w1 \<Longrightarrow> scene_frame w1 w2 \<Longrightarrow> scene_frame w w2"
  by (simp add: scene_frame_def)

lemma settings_scene_frame: "settings_frame w w' \<Longrightarrow> scene_frame w w'"
  by (simp add: settings_frame_def scene_frame_def)

lemma save_images_frame: "scene_frame w (snd (save_images h op ns ok w))"
proof (induction ns arbitrary: ok w)
  case Nil
  then show ?case by simp
next
  case (Cons n ns)
  have step: "scene_frame w w1 \<Longrightarrow> scene_frame w (snd (save_images h op ns ok' w1))" for w1 ok'
    by (rule scene_frame_trans [OF _ Cons.IH])
  show ?case
  proof (cases "images_get w n")
    case None
    then show ?thesis using Cons.IH by simp
  next
    case (Some img)
    let ?img2 = "prepare_for_save op img"
    let ?w1 = "images_put ?img2 w"
    show ?thesis
    proof (cases "save_exn h ?img2")
      case None
      let ?wa = "?w1\<lparr>files := files ?w1 @ [(filepath_raw ?img2, ?img2)]\<rparr>"
      have eq: "save_images h op (n # ns) ok w = save_images h op ns ok ?wa"
        using Some None by (simp add: Let_def)
      have "scene_frame w ?wa" by (simp add: scene_frame_def images_put_def)
      from step [OF this] show ?thesis unfolding eq .
    next
      case (Some e)
      let ?wa = "report ERROR (''Failed to save image '' @ img_name ?img2 @ '' to '' @
                       filepath_raw ?img2 @ '': '' @ str_exn e) ?w1"
      have eq: "save_images h op (n # ns) ok w = save_images h op ns False ?wa"
        using \<open>images_get w n = Some img\<close> Some by (simp add: Let_def)
      have "scene_frame w ?wa" by (simp add: scene_frame_def images_put_def report_def)
      from step [OF this] show ?thesis unfolding eq .
    qed
  qed
qed

lemma cleanup_images_frame: "scene_frame w (cleanup_images ns w) \<and> files (cleanup_images ns w) = files w"
  unfolding cleanup_images_def
proof (induction ns arbitrary: w)
  case Nil
  then show ?case by simp
next
  case (Cons n ns)
  let ?w1 = "if n \<in> set (image_names w) then images_remove n w else w"
  have "scene_frame w ?w1 \<and> files ?w1 = files w"
    by (simp add: scene_frame_def images_remove_def)
  with Cons.IH [of ?w1] show ?case by (auto intro: scene_frame_trans)
qed


lemma reselect_fold:
  "fold (\<lambda>n w. if n \<in> set (map obj_name (objects w)) then select_set n True w else w) ns w =
   w\<lparr>objects := map (\<lambda>ob. if obj_name ob \<in> set ns then ob\<lparr>obj_select := True\<rparr> else ob)
                     (objects w)\<rparr>"
proof (induction ns arbitrary: w)
  case Nil
  then show ?case by simp
next
  case (Cons n ns)
  have absent: "n \<notin> set (map obj_name (objects w)) \<Longrightarrow>
      map (\<lambda>ob. if obj_name ob = n then ob\<lparr>obj_select := True\<rparr> else ob) (objects w) = objects w"
    by (intro map_idI) auto
  have step: "(if n \<in> set (map obj_name (objects w)) then select_set n True w else w) =
      w\<lparr>objects := map (\<lambda>ob. if obj_name ob = n then ob\<lparr>obj_select := True\<rparr> else ob)
                        (objects w)\<rparr>"
    using absent by (simp add: select_set_def)
  show ?case
    unfolding fold_Cons comp_apply step Cons.IH
    by (auto intro!: arg_cong [where f = "\<lambda>x. w\<lparr>objects := x\<rparr>"])
qed

lemma restore_settings_effect:
  assumes "restore_settings h snap w = (None, w')"
  shows "engine w' = original_engine snap \<and> samples w' = original_render_samples snap \<and>
         use_selected_to_active w' = original_use_selected_to_active snap \<and>
         files w' = files w \<and>
         map obj_name (objects w') = map obj_name (objects w) \<and>
         map obj_select (objects w') =
           map (\<lambda>n. n \<in> set (original_selected_objects snap)) (map obj_name (objects w)) \<and>
         active_object w' =
           (case original_active_object snap of
              None \<Rightarrow> active_object w
            | Some n \<Rightarrow> if n \<in> set (map obj_name (objects w)) then Some n else active_object w)"
proof -
  let ?w3 = "w\<lparr>engine := original_engine snap, samples := original_render_samples snap,
               use_selected_to_active := original_use_selected_to_active snap\<rparr>"
  from assms obtain w4 where s: "select_all_deselect h ?w3 = (None, w4)"
    by (auto simp: restore_settings_def Let_def split: prod.splits option.splits)
  note k = select_all_deselect_keeps [OF s]
  let ?w5 = "w4\<lparr>objects := map (\<lambda>ob. if obj_name ob \<in> set (original_selected_objects snap)
                                        then ob\<lparr>obj_select := True\<rparr> else ob) (objects w4)\<rparr>"
  have w': "w' = (case original_active_object snap of
                    None \<Rightarrow> ?w5
                  | Some n \<Rightarrow> if n \<in> set (map obj_name (objects ?w5))
                              then ?w5\<lparr>active_object := Some n\<rparr> else ?w5)"
    using assms unfolding restore_settings_def Let_def reselect_fold s by (simp split: option.splits)
  have names5: "map obj_name (objects ?w5) = map obj_name (objects w)"
    using k by (simp add: comp_def if_distrib cong: if_cong)
  have sel5: "map obj_select (objects ?w5) =
           map (\<lambda>n. n \<in> set (original_selected_objects snap)) (map obj_name (objects w))"
    using k by (simp add: comp_def if_distrib cong: if_cong)
  from w' names5 sel5 k show ?thesis
    by (auto split: option.splits)
qed

lemma bake_and_save_frame:
  assumes "bake_and_save h p m mt op w = (ok, baked, w')"
  shows "scene_frame w w'"
proof -
  obtain ok1 baked1 w1 where b: "bake_maps h p m mt (map_types p) [] w = (ok1, baked1, w1)"
    by (cases "bake_maps h p m mt (map_types p) [] w") auto
  from bake_maps_facts [OF map_types_ok b] have f1: "scene_frame w w1"
    by (simp add: settings_scene_frame)
  show ?thesis
  proof (cases "ok1 \<and> baked1 \<noteq> []")
    case False
    with assms b f1 show ?thesis by (auto simp: bake_and_save_def)
  next
    case True
    obtain ok2 w2 where s: "save_images h op baked1 ok1 w1 = (ok2, w2)"
      by (cases "save_images h op baked1 ok1 w1")
    with save_images_frame [of w1 h op baked1 ok1] have "scene_frame w1 w2" by simp
    with f1 have "scene_frame w w2" by (rule scene_frame_trans)
    with assms b s True show ?thesis by (auto simp: bake_and_save_def)
  qed
qed

lemma select_by_name:
  assumes "distinct (map obj_name xs)"
  shows "map obj_select xs =
         map (\<lambda>n. n \<in> set (map obj_name (filter obj_select xs))) (map obj_name xs)"
proof -
  from assms have inj: "inj_on obj_name (set xs)" by (simp add: distinct_map)
  have "obj_select x = (obj_name x \<in> set (map obj_name (filter obj_select xs)))"
    if "x \<in> set xs" for x
    using that inj by (auto dest: inj_onD)
  then show ?thesis by (simp add: comp_def)
qed

text \<open>
  C1: whenever \<^verbatim>\<open>execute\<close> returns, with the cancelled or the finished status, the
  render engine, the Cycles sample count, the selected-to-active flag, the selected
  objects and the active object are what they were when it was called.  Object names
  are unique, as Blender keeps them.
\<close>

theorem execute_restores:
  assumes ret: "execute h p w = (Returned st, w')"
      and d: "distinct (map obj_name (objects w))"
  shows "engine w' = engine w \<and> samples w' = samples w \<and>
         use_selected_to_active w' = use_selected_to_active w \<and>
         selected_objects w' = selected_objects w \<and>
         active_object w' = active_object w"
proof -
  obtain v w1 where val: "validateRequirements h w = (v, w1)"
    by (cases "validateRequirements h w")
  from validate_selection [OF d, of h] val have f1: "selection_frame w w1" by simp
  have "selection_frame w w'"
  proof (cases v)
    case Cancelled
    with ret val f1 show ?thesis by (simp add: execute_def)
  next
    case (Validated m mt pn)
    with validate_names [of h w m mt pn] val have act: "active_object w = Some m" by simp
    let ?snap = "take_snapshot w1"
    obtain r w2 where ap: "apply_settings h p m mt w1 = (r, w2)"
      by (cases "apply_settings h p m mt w1")
    show ?thesis
    proof (cases r)
      case (Inl e)
      with ret val Validated ap show ?thesis
        by (simp add: execute_def Let_def finally_block_def)
    next
      case (Inr op)
      note k2 = apply_settings_keeps [OF ap [unfolded Inr]]
      obtain ok baked w3 where bs: "bake_and_save h p m mt op w2 = (ok, baked, w3)"
        by (cases "bake_and_save h p m mt op w2") auto
      from bake_and_save_frame [OF bs] have f3: "scene_frame w2 w3" .
      let ?w3c = "cleanup_images baked w3"
      from cleanup_images_frame [of w3 baked] have f3c: "scene_frame w3 ?w3c" by simp
      from ret val Validated ap Inr bs
      have fin: "finally_block h ?snap (Some baked) (Some op) ok w3 = (Returned st, w')"
        by (simp add: execute_def Let_def)
      then obtain w4 msg sev where rs: "restore_settings h ?snap ?w3c = (None, w4)"
        and w': "w' = report sev msg w4"
        by (auto simp: finally_block_def Let_def split: prod.splits option.splits if_splits)
      note e = restore_settings_effect [OF rs]
      have names: "map obj_name (objects ?w3c) = map obj_name (objects w)"
        using f3c f3 k2 f1 by (simp add: scene_frame_def selection_frame_def)
      have act3: "active_object ?w3c = Some m"
        using f3c f3 k2 by (simp add: scene_frame_def)
      have snap: "original_engine ?snap = engine w" "original_render_samples ?snap = samples w"
        "original_use_selected_to_active ?snap = use_selected_to_active w"
        "original_active_object ?snap = Some m"
        "original_selected_objects ?snap = selected_objects w"
        using f1 act selected_objects_frame [OF f1]
        by (simp_all add: take_snapshot_def selection_frame_def)
      have sel: "map obj_select (objects w4) = map obj_select (objects w)"
        using e names snap select_by_name [OF d] by (simp add: selected_objects_def)
      have "selection_frame w w4"
        using e names snap sel act act3 by (simp add: selection_frame_def)
      with w' show ?thesis
        using selection_frame_trans [OF _ selection_frame_report] by blast
    qed
  qed
  with selected_objects_frame [of w w'] show ?thesis by (simp add: selection_frame_def)
qed

theorem execute_restores_witness:
  "fst (execute studio all_maps scene) = Returned FINISHED \<and>
   engine (snd (execute studio all_maps scene)) = ''BLENDER_EEVEE_NEXT'' \<and>
   samples (snd (execute studio all_maps scene)) = 128 \<and>
   use_selected_to_active (snd (execute studio all_maps scene)) \<and>
   selected_objects (snd (execute studio all_maps scene)) = [''Cube'', ''Light''] \<and>
   active_object (snd (execute studio all_maps scene)) = Some ''Cube''"
proof -
  have fin: "fst (execute studio all_maps scene) = Returned FINISHED" by code_simp
  then have ret: "execute studio all_maps scene =
                    (Returned FINISHED, snd (execute studio all_maps scene))"
    by (simp only: prod_eq_iff fst_conv snd_conv simp_thms)
  have d: "distinct (map obj_name (objects scene))"
    by (simp add: scene_def cube_def lamp_def)
  have s: "selected_objects scene = [''Cube'', ''Light'']"
    by (simp add: selected_objects_def scene_def cube_def lamp_def)
  from execute_restores [OF ret d] fin s show ?thesis by (simp add: scene_def)
qed

section \<open>Where the code departs from its intent\<close>

text \<open>
  C2: an exception in the setup phase should leave through the handler of line 168 and
  the \<^verbatim>\<open>finally\<close>, restore the snapshot and return the cancelled status.  On the
  session below the output directory cannot be created: no map is baked, but the
  \<^verbatim>\<open>finally\<close> reads \<^verbatim>\<open>baked_images\<close>, which is first assigned after the setup, so
  \<^verbatim>\<open>execute\<close> raises \<^verbatim>\<open>UnboundLocalError\<close> instead of returning and the engine, the
  sample count, the selected-to-active flag and the selection stay as the setup left them.
\<close>

theorem setup_failure_not_restored:
  "fst (execute denied all_maps scene) =
     Raised (UnboundLocalError (''cannot access local variable '' @ quoted ''baked_images'' @
                                '' where it is not associated with a value'')) \<and>
   bake_log (snd (execute denied all_maps scene)) = [] \<and>
   engine (snd (execute denied all_maps scene)) = ''CYCLES'' \<and>
   engine scene = ''BLENDER_EEVEE_NEXT'' \<and>
   samples (snd (execute denied all_maps scene)) = 32 \<and> samples scene = 128 \<and>
   \<not> use_selected_to_active (snd (execute denied all_maps scene)) \<and>
   use_selected_to_active scene \<and>
   selected_objects (snd (execute denied all_maps scene)) = [''Cube''] \<and>
   selected_objects scene = [''Cube'', ''Light'']"
  by code_simp

lemma setup_exception_raises:
  assumes "validateRequirements h w = (Validated m mt pn, w1)"
      and "apply_settings h p m mt w1 = (Inl e, w2)"
  shows "execute h p w =
           (Raised (UnboundLocalError (''cannot access local variable '' @ quoted ''baked_images'' @
                                       '' where it is not associated with a value'')),
            report ERROR (''Error during bake setup: '' @ str_exn e) w2)"
  using assms by (simp add: execute_def Let_def finally_block_def)

text \<open>
  C4: every bake method should remove the node that \<^verbatim>\<open>add_bake_image_node\<close> inserted
  before it returns.  In the material below a Math node already has the name
  \<^verbatim>\<open>BakeTargetNode\<close>: the inserted image node is named \<^verbatim>\<open>BakeTargetNode.001\<close>, the
  removal by name deletes the Math node, and the inserted node stays in the graph, after
  a bake that succeeds and after one that raises.
\<close>

theorem bake_node_left_behind:
  "graph_nodes clash_scene =
     [[(''Principled BSDF'', ''BSDF_PRINCIPLED''), (''Material Output'', ''OUTPUT_MATERIAL''),
       (''BakeTargetNode'', ''MATH'')]] \<and>
   fst (bake_diffuse studio ''Cube_Diffuse'' ''Diffuse'' ''Material'' clash_scene) = None \<and>
   graph_nodes (snd (bake_diffuse studio ''Cube_Diffuse'' ''Diffuse'' ''Material'' clash_scene)) =
     [[(''Principled BSDF'', ''BSDF_PRINCIPLED''), (''Material Output'', ''OUTPUT_MATERIAL''),
       (''BakeTargetNode.001'', ''TEX_IMAGE'')]] \<and>
   fst (bake_normal no_normals ''Cube_Normal'' ''Normal'' ''Material'' clash_scene) =
     Some (RuntimeError ''No valid normals to bake'') \<and>
   graph_nodes (snd (bake_normal no_normals ''Cube_Normal'' ''Normal'' ''Material'' clash_scene)) =
     [[(''Principled BSDF'', ''BSDF_PRINCIPLED''), (''Material Output'', ''OUTPUT_MATERIAL''),
       (''BakeTargetNode.001'', ''TEX_IMAGE'')]]"
  by code_simp

text \<open>
  C3: when baking a requested map type raises, no later map should be attempted, nothing
  should be saved, and the partially created image buffer of that map should be removed
  from the session.  On the host below the colour configuration has no
  \<^verbatim>\<open>Non-Color\<close> space, so \<^verbatim>\<open>create_image\<close> raises for the Roughness map at line 330,
  after \<^verbatim>\<open>images.new\<close> has created the buffer.  The local \<^verbatim>\<open>image\<close> is still None, the
  handler removes nothing, and the \<^verbatim>\<open>finally\<close> only walks \<^verbatim>\<open>baked_images\<close>: the loop
  stops after the Diffuse bake and no file is written, but the buffer
  \<^verbatim>\<open>Cube_Roughness\<close> is still in the session when \<^verbatim>\<open>execute\<close> has returned.
\<close>

theorem create_failure_leaves_buffer:
  "fst (bake_map_body no_non_color all_maps ''Cube'' ''Material'' ''Roughness'' bake_roughness
          [] scene) =
     Some (HostError ''TypeError: enum Non-Color not found in the color spaces'') \<and>
   fst (snd (bake_map_body no_non_color all_maps ''Cube'' ''Material'' ''Roughness''
               bake_roughness [] scene)) = None \<and>
   fst (execute no_non_color all_maps scene) = Returned CANCELLED \<and>
   bake_log (snd (execute no_non_color all_maps scene)) = [''DIFFUSE''] \<and>
   files (snd (execute no_non_color all_maps scene)) = [] \<and>
   image_names scene = [] \<and>
   image_names (snd (execute no_non_color all_maps scene)) = [''Cube_Roughness'']"
  by code_simp

section \<open>What is written to disk\<close>

lemma prepare_for_save_facts:
  "img_name (prepare_for_save op img) = img_name img"
  "use_generated_float (prepare_for_save op img) = use_generated_float img"
  "endswith (img_name img) ''_Normal'' \<Longrightarrow>
     colorspace_name (prepare_for_save op img) = ''Non-Color''"
  by (simp_all add: prepare_for_save_def Let_def)

lemma images_get_mem: "images_get w n = Some img \<Longrightarrow> img \<in> set (images w)"
  by (auto simp: images_get_def dest: find_Some_iff [THEN iffD1])

lemma floats_at_put:
  assumes "floats_at n w" and "img \<in> set (images w)" and "img_name img' = img_name img"
      and "use_generated_float img' = use_generated_float img"
  shows "floats_at n (images_put img' w)"
  using assms by (auto simp: floats_at_def images_put_def)

lemma floats_at_images_cong: "images w' = images w \<Longrightarrow> floats_at n w' = floats_at n w"
  by (simp add: floats_at_def)

lemma saved_ok_mono:
  "saved_ok ns wa entry \<Longrightarrow> set ns \<subseteq> set ns' \<Longrightarrow>
   (floats_at (img_name (snd entry)) w \<Longrightarrow> floats_at (img_name (snd entry)) wa) \<Longrightarrow>
   saved_ok ns' w entry"
  by (auto simp: saved_ok_def)

lemma save_images_files:
  "\<exists>fs. files (snd (save_images h op ns ok w)) = files w @ fs \<and> list_all (saved_ok ns w) fs"
proof (induction ns arbitrary: ok w)
  case Nil
  then show ?case by simp
next
  case (Cons n ns)
  show ?case
  proof (cases "images_get w n")
    case None
    with Cons.IH [of ok w] obtain fs where
      "files (snd (save_images h op (n # ns) ok w)) = files w @ fs" "list_all (saved_ok ns w) fs"
      by auto
    moreover from this(2) have "list_all (saved_ok (n # ns) w) fs"
      by (auto simp: list_all_iff intro: saved_ok_mono)
    ultimately show ?thesis by blast
  next
    case (Some img)
    let ?img2 = "prepare_for_save op img"
    let ?w1 = "images_put ?img2 w"
    note pf = prepare_for_save_facts [where img = img and op = op]
    have keep: "floats_at k w \<Longrightarrow> floats_at k ?w1" for k
      using floats_at_put [OF _ images_get_mem [OF Some], of k ?img2] pf by simp
    have entry: "saved_ok (n # ns) w (filepath_raw ?img2, ?img2)"
      using pf images_get_mem [OF Some] images_get_name [OF Some]
      by (auto simp: floats_at_def saved_ok_def)
    show ?thesis
    proof (cases "save_exn h ?img2")
      case None
      let ?wa = "?w1\<lparr>files := files ?w1 @ [(filepath_raw ?img2, ?img2)]\<rparr>"
      have eq: "save_images h op (n # ns) ok w = save_images h op ns ok ?wa"
        using Some None by (simp add: Let_def)
      have keepa: "floats_at k w \<Longrightarrow> floats_at k ?wa" for k
        using keep [of k] by (simp add: floats_at_def)
      from Cons.IH [of ok ?wa] obtain fs where
        fs: "files (snd (save_images h op ns ok ?wa)) = files ?wa @ fs"
          "list_all (saved_ok ns ?wa) fs"
        by blast
      have "files (snd (save_images h op (n # ns) ok w)) =
              files w @ ((filepath_raw ?img2, ?img2) # fs)"
        unfolding eq fs(1) by (simp add: images_put_def)
      moreover have "list_all (saved_ok (n # ns) w) ((filepath_raw ?img2, ?img2) # fs)"
        using fs(2) entry keepa by (auto simp: list_all_iff intro: saved_ok_mono)
      ultimately show ?thesis by blast
    next
      case (Some e)
      let ?wa = "report ERROR (''Failed to save image '' @ img_name ?img2 @ '' to '' @
                       filepath_raw ?img2 @ '': '' @ str_exn e) ?w1"
      have eq: "save_images h op (n # ns) ok w = save_images h op ns False ?wa"
        using \<open>images_get w n = Some img\<close> Some by (simp add: Let_def)
      have keepa: "floats_at k w \<Longrightarrow> floats_at k ?wa" for k
        using keep [of k] by (simp add: floats_at_def report_def)
      from Cons.IH [of False ?wa] obtain fs where
        fs: "files (snd (save_images h op ns False ?wa)) = files ?wa @ fs"
          "list_all (saved_ok ns ?wa) fs"
        by blast
      have "files (snd (save_images h op (n # ns) ok w)) = files w @ fs"
        unfolding eq fs(1) by (simp add: images_put_def report_def)
      moreover have "list_all (saved_ok (n # ns) w) fs"
        using fs(2) keepa by (auto simp: list_all_iff intro: saved_ok_mono)
      ultimately show ?thesis by blast
    qed
  qed
qed

lemma floats_at_report [simp]: "floats_at n (report sev msg w) = floats_at n w"
  by (simp add: floats_at_def report_def)

lemma floats_at_materials_put [simp]: "floats_at n (materials_put m w) = floats_at n w"
  by (simp add: floats_at_def materials_put_def)

lemma floats_at_images_remove: "floats_at n w \<Longrightarrow> floats_at n (images_remove k w)"
  by (simp add: floats_at_def images_remove_def)

lemma floats_at_ensure_non_color: "floats_at n w \<Longrightarrow> floats_at n (ensure_non_color k w)"
  by (auto simp: ensure_non_color_def split: option.splits
           intro!: floats_at_put dest: images_get_mem)

lemma floats_at_ensure_float: "floats_at n w \<Longrightarrow> floats_at n (ensure_float k w)"
  by (auto simp: ensure_float_def floats_at_def images_put_def split: option.splits)

lemma floats_at_finally_remove_node [simp]:
  "floats_at n (finally_remove_node m w) = floats_at n w"
  by (simp add: finally_remove_node_def split: option.splits)

lemma bake_target_mem: "bake_target w = Some img \<Longrightarrow> img \<in> set (images w)"
  by (auto simp: bake_target_def split: option.splits if_splits dest: images_get_mem)

lemma floats_at_object_bake:
  assumes "float_kept h" and "floats_at n w"
  shows "floats_at n (snd (object_bake h t w))"
proof -
  let ?w1 = "w\<lparr>bake_log := bake_log w @ [t]\<rparr>"
  have f1: "floats_at n ?w1" using assms(2) by (simp add: floats_at_def)
  show ?thesis
  proof (cases "bake_target ?w1")
    case None
    with f1 show ?thesis by (simp add: object_bake_def Let_def)
  next
    case (Some target)
    show ?thesis
    proof (cases "bake_service h t target")
      case (Inl e)
      with Some f1 show ?thesis by (simp add: object_bake_def Let_def)
    next
      case (Inr baked)
      with assms(1) have "use_generated_float baked = use_generated_float target"
        by (auto simp: float_kept_def)
      then have "floats_at n (images_put (baked\<lparr>img_name := img_name target\<rparr>) ?w1)"
        using floats_at_put [OF f1 bake_target_mem [OF Some], of "baked\<lparr>img_name := img_name target\<rparr>"]
        by simp
      with Some Inr show ?thesis by (simp add: object_bake_def Let_def)
    qed
  qed
qed

lemma floats_at_bake_via_node:
  assumes "float_kept h" and "floats_at n w"
      and "\<And>w. floats_at n w \<Longrightarrow> floats_at n (checks w)"
      and "\<And>w. floats_at n w \<Longrightarrow> floats_at n (settings w)"
  shows "floats_at n (snd (bake_via_node h i m checks settings t w))"
proof (cases "materials_get w m")
  case None
  with assms(2) show ?thesis by (simp add: bake_via_node_def)
next
  case (Some mat)
  obtain nd m1 where a: "add_bake_image_node mat i = (nd, m1)" by (cases "add_bake_image_node mat i")
  let ?w2 = "settings (materials_put m1 (checks w))"
  obtain r w3 where b: "object_bake h t ?w2 = (r, w3)" by (cases "object_bake h t ?w2")
  have "floats_at n ?w2" using assms(2,3,4) by simp
  from floats_at_object_bake [OF assms(1) this, of t] b have "floats_at n w3" by simp
  with Some a b show ?thesis by (simp add: bake_via_node_def Let_def)
qed

lemma method_float_bake_diffuse: "method_float bake_diffuse"
  unfolding method_float_def bake_diffuse_def
proof (intro allI impI)
  fix h i mt m w n
  assume "float_kept h" "floats_at n w"
  then show "floats_at n (snd (bake_via_node h i m (\<lambda>w. w)
       (\<lambda>w. w\<lparr>use_pass_direct := False, use_pass_indirect := False, use_pass_color := True\<rparr>)
       ''DIFFUSE'' w))"
    by (rule floats_at_bake_via_node) (simp_all add: floats_at_def)
qed

lemma method_float_bake_roughness: "method_float bake_roughness"
  unfolding method_float_def bake_roughness_def
proof (intro allI impI)
  fix h i mt m w n
  assume "float_kept h" "floats_at n w"
  then show "floats_at n (snd (bake_via_node h i m (ensure_non_color i) (\<lambda>w. w) ''ROUGHNESS'' w))"
    by (rule floats_at_bake_via_node) (simp_all add: floats_at_ensure_non_color)
qed

lemma method_float_bake_ao: "method_float bake_ao"
  unfolding method_float_def bake_ao_def
proof (intro allI impI)
  fix h i mt m w n
  assume "float_kept h" "floats_at n w"
  then show "floats_at n (snd (bake_via_node h i m (ensure_non_color i) (\<lambda>w. w) ''AO'' w))"
    by (rule floats_at_bake_via_node) (simp_all add: floats_at_ensure_non_color)
qed

lemma method_float_bake_normal: "method_float bake_normal"
  unfolding method_float_def bake_normal_def
proof (intro allI impI)
  fix h i mt m w n
  assume "float_kept h" "floats_at n w"
  then show "floats_at n (snd (bake_via_node h i m
       (\<lambda>w. ensure_float i (ensure_non_color i w))
       (\<lambda>w. w\<lparr>normal_space := ''TANGENT'', normal_r := ''POS_X'', normal_g := ''POS_Y'',
              normal_b := ''POS_Z''\<rparr>)
       ''NORMAL'' w))"
  proof (rule floats_at_bake_via_node)
    show "floats_at n w \<Longrightarrow> floats_at n (ensure_float i (ensure_non_color i w))" for w
      by (intro floats_at_ensure_float floats_at_ensure_non_color)
    show "floats_at n w \<Longrightarrow> floats_at n (w\<lparr>normal_space := ''TANGENT'', normal_r := ''POS_X'',
              normal_g := ''POS_Y'', normal_b := ''POS_Z''\<rparr>)" for w
      by (simp add: floats_at_def)
  qed
qed

lemmas method_float_all =
  method_float_bake_diffuse method_float_bake_roughness method_float_bake_normal method_float_bake_ao

lemma map_types_float: "\<forall>(mt, b, m)\<in>set (map_types p). method_float m"
  by (simp add: map_types_def method_float_all)

lemma create_image_partial_floats:
  assumes fresh: "n \<notin> set (image_names w)" and "k \<noteq> n" and "floats_at k w"
  shows "floats_at k (create_image_partial n sz mt w)"
proof -
  have "img \<in> set (images (create_image_partial n sz mt w)) \<Longrightarrow>
        img \<in> set (images w) \<or> img_name img = n" for img
    using fresh
    by (auto simp: create_image_partial_def images_new_def images_put_def Let_def
                   unique_name_free split: if_splits)
  with assms(2,3) show ?thesis unfolding floats_at_def by blast
qed


lemma create_image_members:
  assumes fresh: "n \<notin> set (image_names w)"
      and mem: "img \<in> set (images (snd (create_image n sz mt w)))"
  shows "img \<in> set (images w) \<or>
         (img_name img = n \<and> (mt = ''Normal'' \<longrightarrow> use_generated_float img))"
  using assms
  by (auto simp: create_image_def images_new_def images_put_def Let_def
                 unique_name_free split: if_splits)

lemma create_image_on_accepted:
  "colorspace_exn h (colorspace_written mt) = None \<Longrightarrow>
   create_image_on h n sz mt w = (Inr (fst (create_image n sz mt w)), snd (create_image n sz mt w))"
  by (simp add: create_image_on_def split: prod.splits)

lemma create_image_on_floats:
  assumes fresh: "n \<notin> set (image_names w)"
  shows "k \<noteq> n \<Longrightarrow> floats_at k w \<Longrightarrow> floats_at k (snd (create_image_on h n sz mt w))"
    and "fst (create_image_on h n sz ''Normal'' w) = Inr img \<Longrightarrow>
         floats_at n (snd (create_image_on h n sz ''Normal'' w))"
proof -
  show "floats_at k (snd (create_image_on h n sz mt w))" if "k \<noteq> n" "floats_at k w"
  proof (cases "colorspace_exn h (colorspace_written mt)")
    case (Some e)
    with create_image_partial_floats [OF fresh that] show ?thesis
      by (simp add: create_image_on_def)
  next
    case None
    have "floats_at k (snd (create_image n sz mt w))"
      unfolding floats_at_def using create_image_members [OF fresh] that
      by (auto simp: floats_at_def)
    with None show ?thesis by (simp add: create_image_on_accepted)
  qed
  show "floats_at n (snd (create_image_on h n sz ''Normal'' w))"
    if "fst (create_image_on h n sz ''Normal'' w) = Inr img"
  proof -
    from that have acc: "colorspace_exn h (colorspace_written ''Normal'') = None"
      by (auto simp: create_image_on_def split: option.splits)
    have "x \<in> set (images w) \<Longrightarrow> img_name x \<noteq> n" for x
      using fresh by (auto simp: image_names_def)
    then have "floats_at n (snd (create_image n sz ''Normal'' w))"
      unfolding floats_at_def using create_image_members [OF fresh, of _ sz "''Normal''"]
      by blast
    with acc show ?thesis by (simp add: create_image_on_accepted)
  qed
qed

lemma floats_at_check_normal_solid:
  "floats_at n (snd (check_normal_solid h mt i w)) = floats_at n w"
  by (simp add: check_normal_solid_def split: option.splits)

lemma bake_map_failed_floats:
  "floats_at n w \<Longrightarrow> floats_at n (snd (bake_map_failed e mt io baked w))"
  by (auto simp: bake_map_failed_def Let_def floats_at_images_remove split: option.splits)

lemma bake_map_body_floats:
  assumes fl: "method_float bake_method" and hk: "float_kept h"
      and body: "bake_map_body h p model_name material_name map_type bake_method baked w =
                   (r, image_opt, baked2, w2)"
  shows "map_type \<noteq> ''Normal'' \<Longrightarrow> floats_at (model_name @ ''_Normal'') w \<Longrightarrow>
         floats_at (model_name @ ''_Normal'') w2"
    and "map_type = ''Normal'' \<Longrightarrow> image_opt \<noteq> None \<Longrightarrow>
         floats_at (model_name @ ''_Normal'') w2"
proof -
  let ?n = "model_name @ ''_'' @ map_type"
  let ?N = "model_name @ ''_Normal''"
  define w1 where "w1 = (if ?n \<in> set (image_names w) then images_remove ?n w else w)"
  have fresh: "?n \<notin> set (image_names w1)" by (simp add: w1_def names_images_remove)
  have k1: "floats_at ?N w \<Longrightarrow> floats_at ?N w1"
    by (simp add: w1_def floats_at_images_remove)
  obtain ci w2' where c: "create_image_on h ?n (texture_size p) map_type w1 = (ci, w2')"
    by (cases "create_image_on h ?n (texture_size p) map_type w1")
  have body': "(case create_image_on h ?n (texture_size p) map_type w1 of
        (Inl e, w2) \<Rightarrow> (Some e, None, baked, w2)
      | (Inr img, w2) \<Rightarrow>
          (case bake_method h (img_name img) map_type material_name w2 of
             (Some e, w3) \<Rightarrow> (Some e, Some (img_name img), baked @ [img_name img], w3)
           | (None, w3) \<Rightarrow>
               (case check_normal_solid h map_type (img_name img) w3 of
                  (r, w4) \<Rightarrow> (r, Some (img_name img), baked @ [img_name img], w4)))) =
      (r, image_opt, baked2, w2)"
    using body unfolding bake_map_body_def Let_def w1_def .
  have after: "floats_at ?N w2' \<Longrightarrow> floats_at ?N w2"
  proof (cases ci)
    case (Inl e)
    with body' c have "w2 = w2'" by simp
    then show "floats_at ?N w2' \<Longrightarrow> floats_at ?N w2" by simp
  next
    case (Inr img)
    assume f2: "floats_at ?N w2'"
    obtain r3 w3 where b: "bake_method h (img_name img) map_type material_name w2' = (r3, w3)"
      by (cases "bake_method h (img_name img) map_type material_name w2'")
    from fl hk f2 b have f3: "floats_at ?N w3"
      unfolding method_float_def by (metis snd_conv)
    obtain r4 w4 where k: "check_normal_solid h map_type (img_name img) w3 = (r4, w4)"
      by (cases "check_normal_solid h map_type (img_name img) w3")
    have f4: "floats_at ?N w4"
      using floats_at_check_normal_solid [of ?N h map_type "img_name img" w3] k f3 by simp
    have "w2 = w3 \<or> w2 = w4"
      using body' unfolding c Inr sum.case prod.case b k by (auto split: option.splits)
    with f3 f4 show "floats_at ?N w2" by auto
  qed
  show "floats_at ?N w2" if "map_type \<noteq> ''Normal''" "floats_at ?N w"
  proof -
    from that(1) have "?N \<noteq> ?n" by simp
    from create_image_on_floats(1) [OF fresh this k1 [OF that(2)], of h "texture_size p" map_type] c
    have "floats_at ?N w2'" by simp
    then show ?thesis by (rule after)
  qed
  show "floats_at ?N w2" if "map_type = ''Normal''" "image_opt \<noteq> None"
  proof -
    from that(2) body' c obtain img where inr: "ci = Inr img"
      by (cases ci) auto
    from that(1) have eq: "?n = ?N" by simp
    from create_image_on_floats(2) [OF fresh, of h "texture_size p" img] c inr that(1)
    have "floats_at ?n w2'" by simp
    with eq have "floats_at ?N w2'" by simp
    then show ?thesis by (rule after)
  qed
qed

lemma bake_maps_floats:
  assumes "\<forall>(mt, b, m)\<in>set ms. method_ok m \<and> method_float m" and hk: "float_kept h"
      and "distinct (map fst ms)"
      and "bake_maps h p mo ma ms baked w = (ok, baked', w')"
      and "mo @ ''_Normal'' \<in> set baked \<longrightarrow>
             floats_at (mo @ ''_Normal'') w \<and> ''Normal'' \<notin> fst ` set ms"
  shows "mo @ ''_Normal'' \<in> set baked' \<longrightarrow> floats_at (mo @ ''_Normal'') w'"
  using assms(1,3,4,5)
proof (induction ms arbitrary: baked w)
  case Nil
  then show ?case by simp
next
  case (Cons a ms)
  let ?N = "mo @ ''_Normal''"
  obtain mt b m where a: "a = (mt, b, m)" by (cases a)
  from Cons.prems(1) a have mok: "method_ok m" and mfl: "method_float m"
    and rest: "\<forall>(mt, b, m)\<in>set ms. method_ok m \<and> method_float m"
    by auto
  from Cons.prems(2) a have d: "distinct (map fst ms)" and first: "mt \<notin> fst ` set ms"
    by auto
  show ?case
  proof (cases b)
    case False
    with Cons.prems(3) a have run: "bake_maps h p mo ma ms baked w = (ok, baked', w')" by simp
    from Cons.prems(4) have "?N \<in> set baked \<longrightarrow> floats_at ?N w \<and> ''Normal'' \<notin> fst ` set ms"
      by auto
    from Cons.IH [OF rest d run this] show ?thesis .
  next
    case True
    obtain r io b2 w2 where body: "bake_map_body h p mo ma mt m baked w = (r, io, b2, w2)"
      by (cases "bake_map_body h p mo ma mt m baked w") auto
    note bf = bake_map_body_facts [OF mok body]
    note fl = bake_map_body_floats [OF mfl hk body]
    have inv2: "?N \<in> set b2 \<longrightarrow> floats_at ?N w2 \<and> ''Normal'' \<notin> fst ` set ms"
    proof
      assume in2: "?N \<in> set b2"
      show "floats_at ?N w2 \<and> ''Normal'' \<notin> fst ` set ms"
      proof (cases "?N \<in> set baked")
        case True
        with Cons.prems(4) a have "floats_at ?N w" "mt \<noteq> ''Normal''" "''Normal'' \<notin> fst ` set ms"
          by auto
        with fl(1) show ?thesis by simp
      next
        case False
        with in2 bf(2) have b2: "b2 = baked @ [mo @ ''_'' @ mt]" and "?N = mo @ ''_'' @ mt"
          by auto
        then have mt: "mt = ''Normal''" by simp
        from False in2 bf(4) have "io \<noteq> None" by auto
        with fl(2) mt first show ?thesis by simp
      qed
    qed
    show ?thesis
    proof (cases r)
      case None
      with Cons.prems(3) a True body have "bake_maps h p mo ma ms b2 w2 = (ok, baked', w')"
        by simp
      from Cons.IH [OF rest d this inv2] show ?thesis .
    next
      case (Some e)
      obtain b3 w3 where hd: "bake_map_failed e mt io b2 w2 = (b3, w3)"
        by (cases "bake_map_failed e mt io b2 w2")
      with Some Cons.prems(3) a True body have res: "baked' = b3" "w' = w3" by simp_all
      from bake_map_failed_sub [of e mt io b2 w2] hd have "set b3 \<subseteq> set b2" by simp
      moreover from bake_map_failed_floats [of ?N w2 e mt io b2] hd
      have "floats_at ?N w2 \<Longrightarrow> floats_at ?N w3" by simp
      ultimately show ?thesis using inv2 res by auto
    qed
  qed
qed

lemma bake_and_save_files:
  assumes "bake_and_save h p m mt op w = (ok, baked, w')"
  shows "\<exists>fs. files w' = files w @ fs \<and>
           (\<forall>(path, img)\<in>set fs.
              (endswith (img_name img) ''_Normal'' \<longrightarrow> colorspace_name img = ''Non-Color'') \<and>
              (float_kept h \<longrightarrow> img_name img = m @ ''_Normal'' \<longrightarrow> use_generated_float img))"
proof -
  obtain ok1 baked1 w1 where b: "bake_maps h p m mt (map_types p) [] w = (ok1, baked1, w1)"
    by (cases "bake_maps h p m mt (map_types p) [] w") auto
  from bake_maps_facts [OF map_types_ok b] have f1: "files w1 = files w"
    by (simp add: settings_frame_def)
  have both: "\<forall>(mt, b, m)\<in>set (map_types p). method_ok m \<and> method_float m"
    using map_types_ok [of p] map_types_float [of p] by auto
  have d: "distinct (map fst (map_types p))" by (simp add: map_types_def)
  have inv: "float_kept h \<Longrightarrow> m @ ''_Normal'' \<in> set baked1 \<longrightarrow> floats_at (m @ ''_Normal'') w1"
    using bake_maps_floats [OF both _ d b] by simp
  show ?thesis
  proof (cases "ok1 \<and> baked1 \<noteq> []")
    case False
    with assms b have "w' = w1" by (auto simp: bake_and_save_def)
    with f1 show ?thesis by simp
  next
    case True
    with assms b have w': "w' = snd (save_images h op baked1 ok1 w1)"
      by (auto simp: bake_and_save_def split: prod.splits)
    from save_images_files [of h op baked1 ok1 w1] obtain fs where
      fs: "files (snd (save_images h op baked1 ok1 w1)) = files w1 @ fs"
        "list_all (saved_ok baked1 w1) fs" by blast
    have "\<forall>(path, img)\<in>set fs.
              (endswith (img_name img) ''_Normal'' \<longrightarrow> colorspace_name img = ''Non-Color'') \<and>
              (float_kept h \<longrightarrow> img_name img = m @ ''_Normal'' \<longrightarrow> use_generated_float img)"
      using fs(2) inv by (auto simp: list_all_iff saved_ok_def)
    with fs(1) w' f1 show ?thesis by auto
  qed
qed

lemma files_report [simp]: "files (report sev msg w) = files w"
  by (simp add: report_def)

lemma files_objects_put [simp]: "files (objects_put ob w) = files w"
  by (simp add: objects_put_def)

lemma validate_render_uv_files:
  "validate_render_uv h model w = Inl w' \<Longrightarrow> files w' = files w"
  "validate_render_uv h model w = Inr (model', i, w') \<Longrightarrow> files w' = files w"
  by (auto simp: validate_render_uv_def Let_def split: option.splits list.splits)

lemma validate_active_uv_files:
  "validate_active_uv h model i w = Inl w' \<Longrightarrow> files w' = files w"
  "validate_active_uv h model i w = Inr (model', w') \<Longrightarrow> files w' = files w"
  by (auto simp: validate_active_uv_def Let_def split: option.splits if_splits)

lemma validate_material_files: "files (snd (validate_material model w)) = files w"
  by (simp add: validate_material_def split: option.splits)

lemma validate_files: "files (snd (validateRequirements h w)) = files w"
proof (cases "context_active_object w")
  case None
  then show ?thesis by (simp add: validateRequirements_def)
next
  case (Some model)
  define w1 where "w1 = (if length (selected_objects w) > 1
                      then report WARNING
                        ''More than one object selected. Baking only the active object.'' w
                      else w)"
  have f1: "files w1 = files w" by (simp add: w1_def)
  have start: "validateRequirements h w =
    (if obj_type model \<noteq> ''MESH'' then
       (Cancelled, report ERROR (''Active object '' @ quoted (obj_name model) @
                     '' is not a Mesh.'') w)
     else if uv_layers model = [] then
       (Cancelled, report ERROR (''Model '' @ quoted (obj_name model) @
                     '' has no UV maps.'') w1)
     else
       (case validate_render_uv h model w1 of
          Inl w2 \<Rightarrow> (Cancelled, w2)
        | Inr (model2, render_uv_layer, w2) \<Rightarrow>
            (case validate_active_uv h model2 render_uv_layer w2 of
               Inl w3 \<Rightarrow> (Cancelled, w3)
             | Inr (model3, w3) \<Rightarrow> validate_material model3 w3)))"
    using Some unfolding w1_def by (simp add: validateRequirements_def Let_def)
  show ?thesis
  proof (cases "obj_type model \<noteq> ''MESH'' \<or> uv_layers model = []")
    case True
    with start f1 show ?thesis by auto
  next
    case False
    with start have start: "validateRequirements h w =
       (case validate_render_uv h model w1 of
          Inl w2 \<Rightarrow> (Cancelled, w2)
        | Inr (model2, render_uv_layer, w2) \<Rightarrow>
            (case validate_active_uv h model2 render_uv_layer w2 of
               Inl w3 \<Rightarrow> (Cancelled, w3)
             | Inr (model3, w3) \<Rightarrow> validate_material model3 w3))"
      by simp
    show ?thesis
    proof (cases "validate_render_uv h model w1")
      case (Inl w2)
      with validate_render_uv_files(1) [OF Inl] f1 start show ?thesis by simp
    next
      case (Inr t)
      then obtain model2 i w2 where r: "validate_render_uv h model w1 = Inr (model2, i, w2)"
        by (cases t) auto
      from validate_render_uv_files(2) [OF r] f1 have f2: "files w2 = files w" by simp
      show ?thesis
      proof (cases "validate_active_uv h model2 i w2")
        case (Inl w3)
        with validate_active_uv_files(1) [OF Inl] f2 start r show ?thesis by simp
      next
        case (Inr u)
        then obtain model3 w3 where a: "validate_active_uv h model2 i w2 = Inr (model3, w3)"
          by (cases u) auto
        from validate_active_uv_files(2) [OF a] f2 have "files w3 = files w" by simp
        with start r a validate_material_files [of model3 w3] show ?thesis by simp
      qed
    qed
  qed
qed

lemma ensure_material_files: "files (snd (ensure_material m mt w)) = files w"
  using ensure_material_keeps [of m mt w] by (cases "ensure_material m mt w") simp

lemma makedirs_files: "files (snd (makedirs h d w)) = files w"
  by (simp add: makedirs_def split: option.splits)

lemma snd_exn_case:
  "snd (case x of (Some e, w) \<Rightarrow> (f e, w) | (None, w) \<Rightarrow> (g, w)) = snd x"
  by (cases x; cases "fst x") auto

lemma apply_settings_files: "files (snd (apply_settings h p m mt w)) = files w"
proof -
  let ?w3 = "w\<lparr>engine := ''CYCLES'', samples := 32, use_selected_to_active := False\<rparr>"
  show ?thesis
  proof (cases "select_all_exn h")
    case (Some e)
    then show ?thesis by (simp add: apply_settings_def Let_def select_all_deselect_def)
  next
    case None
    let ?w4 = "?w3\<lparr>objects := map (\<lambda>ob. ob\<lparr>obj_select := False\<rparr>) (objects ?w3)\<rparr>"
    let ?w6 = "select_set m True (?w4\<lparr>active_object := Some m\<rparr>)"
    let ?op = "(if subfolder_for_size p
                then path_join (abspath h (output_folder p)) (str_nat (texture_size p))
                else abspath h (output_folder p))"
    have f6: "files ?w6 = files w" by (simp add: select_set_def)
    obtain r7 w7 where mk:
      "(if ?op \<notin> set (dirs ?w6) then makedirs h ?op ?w6 else (None, ?w6)) = (r7, w7)"
      by (cases "(if ?op \<notin> set (dirs ?w6) then makedirs h ?op ?w6 else (None, ?w6))")
    have f7: "files w7 = files w"
      using mk makedirs_files [of h ?op ?w6] f6 by (auto split: if_splits)
    have eq: "apply_settings h p m mt w =
        (case (r7, w7) of
           (Some e, w7) \<Rightarrow> (Inl e, w7)
         | (None, w7) \<Rightarrow>
             (case ensure_material m mt w7 of
                (Some e, w8) \<Rightarrow> (Inl e, w8)
              | (None, w8) \<Rightarrow> (Inr ?op, w8)))"
      unfolding apply_settings_def Let_def select_all_deselect_def None option.case prod.case mk
      by (rule refl)
    show ?thesis
    proof (cases r7)
      case (Some e)
      with eq f7 show ?thesis by simp
    next
      case N7: None
      with eq have "snd (apply_settings h p m mt w) = snd (ensure_material m mt w7)"
        by (simp add: snd_exn_case)
      with ensure_material_files [of m mt w7] f7 show ?thesis by simp
    qed
  qed
qed

lemma restore_settings_files: "files (snd (restore_settings h snap w)) = files w"
proof (cases "select_all_exn h")
  case (Some e)
  then show ?thesis by (simp add: restore_settings_def Let_def select_all_deselect_def)
next
  case None
  let ?w3 = "w\<lparr>engine := original_engine snap, samples := original_render_samples snap,
               use_selected_to_active := original_use_selected_to_active snap\<rparr>"
  obtain w4 where s: "select_all_deselect h ?w3 = (None, w4)"
    using None by (simp add: select_all_deselect_def)
  obtain r w' where rs: "restore_settings h snap w = (r, w')"
    by (cases "restore_settings h snap w")
  then have "r = None"
    using s by (auto simp: restore_settings_def Let_def split: prod.splits option.splits)
  with rs restore_settings_effect [of h snap w w'] show ?thesis by simp
qed

lemma finally_block_files: "files (snd (finally_block h snap bo oo ok w)) = files w"
proof (cases bo)
  case None
  then show ?thesis by (simp add: finally_block_def)
next
  case (Some baked)
  have c: "files (cleanup_images baked w) = files w"
    using cleanup_images_frame [of w baked] by simp
  obtain r w2 where rs: "restore_settings h snap (cleanup_images baked w) = (r, w2)"
    by (cases "restore_settings h snap (cleanup_images baked w)")
  with restore_settings_files [of h snap "cleanup_images baked w"] c
  have f2: "files w2 = files w" by simp
  show ?thesis
  proof (cases r)
    case (Some e)
    with \<open>bo = Some baked\<close> rs f2 show ?thesis by (simp add: finally_block_def Let_def)
  next
    case None
    with \<open>bo = Some baked\<close> rs f2 show ?thesis
      by (cases oo) (simp_all add: finally_block_def Let_def)
  qed
qed

text \<open>
  C5, as the code has it: every file that \<^verbatim>\<open>execute\<close> writes for an image whose name
  ends in \<^verbatim>\<open>_Normal\<close> has the Non-Color colour space, whatever the bake service did to
  the buffer, because the save loop sets it once more.  The precision is set at creation
  and checked again at the start of \<^verbatim>\<open>bake_normal\<close> only: the file of the Normal map of
  the active object is 32-bit float when the bake service hands the buffer back with the
  precision it was given.
\<close>

theorem normal_map_saved:
  "\<exists>fs. files (snd (execute h p w)) = files w @ fs \<and>
     (\<forall>(path, img)\<in>set fs.
        (endswith (img_name img) ''_Normal'' \<longrightarrow> colorspace_name img = ''Non-Color'') \<and>
        (active_object w = Some m \<longrightarrow> img_name img = m @ ''_Normal'' \<longrightarrow>
           colorspace_name img = ''Non-Color'' \<and> (float_kept h \<longrightarrow> use_generated_float img)))"
proof -
  have suffix: "endswith (m @ ''_Normal'') ''_Normal''" by (simp add: endswith_def)
  obtain v w1 where val: "validateRequirements h w = (v, w1)"
    by (cases "validateRequirements h w")
  from validate_files [of h w] val have f1: "files w1 = files w" by simp
  show ?thesis
  proof (cases v)
    case Cancelled
    with val f1 have "files (snd (execute h p w)) = files w @ []" by (simp add: execute_def)
    then show ?thesis by (intro exI [of _ "[]"]) simp
  next
    case (Validated mo mt pn)
    with validate_names [of h w mo mt pn] val have act: "active_object w = Some mo" by simp
    obtain r w2 where ap: "apply_settings h p mo mt w1 = (r, w2)"
      by (cases "apply_settings h p mo mt w1")
    from apply_settings_files [of h p mo mt w1] ap f1 have f2: "files w2 = files w" by simp
    show ?thesis
    proof (cases r)
      case (Inl e)
      with val Validated ap have
        "execute h p w = finally_block h (take_snapshot w1) None None False
                           (report ERROR (''Error during bake setup: '' @ str_exn e) w2)"
        by (simp add: execute_def Let_def)
      with finally_block_files f2 have "files (snd (execute h p w)) = files w @ []" by simp
      then show ?thesis by (intro exI [of _ "[]"]) simp
    next
      case (Inr op)
      obtain ok baked w3 where bs: "bake_and_save h p mo mt op w2 = (ok, baked, w3)"
        by (cases "bake_and_save h p mo mt op w2") auto
      from bake_and_save_files [OF bs] f2 obtain fs where
        fs: "files w3 = files w @ fs"
          "\<forall>(path, img)\<in>set fs.
              (endswith (img_name img) ''_Normal'' \<longrightarrow> colorspace_name img = ''Non-Color'') \<and>
              (float_kept h \<longrightarrow> img_name img = mo @ ''_Normal'' \<longrightarrow> use_generated_float img)"
        by auto
      from val Validated ap Inr bs have
        "execute h p w = finally_block h (take_snapshot w1) (Some baked) (Some op) ok w3"
        by (simp add: execute_def Let_def)
      with finally_block_files fs(1) have "files (snd (execute h p w)) = files w @ fs" by simp
      moreover have "\<forall>(path, img)\<in>set fs.
        (endswith (img_name img) ''_Normal'' \<longrightarrow> colorspace_name img = ''Non-Color'') \<and>
        (active_object w = Some m \<longrightarrow> img_name img = m @ ''_Normal'' \<longrightarrow>
           colorspace_name img = ''Non-Color'' \<and> (float_kept h \<longrightarrow> use_generated_float img))"
        using fs(2) act suffix by auto
      ultimately show ?thesis by blast
    qed
  qed
qed

theorem normal_map_saved_witness:
  "float_kept studio \<and> active_object scene = Some ''Cube'' \<and>
   saved_settings (snd (execute studio all_maps scene)) =
     [(''Cube_Diffuse'', ''sRGB'', False), (''Cube_Roughness'', ''Non-Color'', False),
      (''Cube_Normal'', ''Non-Color'', True), (''Cube_AO'', ''Non-Color'', False)] \<and>
   (\<exists>fs. files (snd (execute studio all_maps scene)) = files scene @ fs \<and>
     (\<forall>(path, img)\<in>set fs.
        (endswith (img_name img) ''_Normal'' \<longrightarrow> colorspace_name img = ''Non-Color'') \<and>
        (img_name img = ''Cube_Normal'' \<longrightarrow>
           colorspace_name img = ''Non-Color'' \<and> use_generated_float img)))"
proof -
  have fk: "float_kept studio" by (simp add: float_kept_def studio_def)
  have act: "active_object scene = Some ''Cube''" by (simp add: scene_def)
  have ev: "saved_settings (snd (execute studio all_maps scene)) =
     [(''Cube_Diffuse'', ''sRGB'', False), (''Cube_Roughness'', ''Non-Color'', False),
      (''Cube_Normal'', ''Non-Color'', True), (''Cube_AO'', ''Non-Color'', False)]"
    by code_simp
  from normal_map_saved [of studio all_maps scene "''Cube''"] fk act ev
  show ?thesis by simp
qed

theorem normal_map_saved_eight_bit:
  "fst (execute eight_bit all_maps scene) = Returned FINISHED \<and>
   saved_settings (snd (execute eight_bit all_maps scene)) =
     [(''Cube_Diffuse'', ''sRGB'', False), (''Cube_Roughness'', ''sRGB'', False),
      (''Cube_Normal'', ''Non-Color'', False), (''Cube_AO'', ''sRGB'', False)]"
  by code_simp

end
